theory Spec2Isabelle
  imports Main "HOL-Library.Multiset" "HOL-Library.List_Lexorder" "HOL-Library.Char_ord"
begin

chapter \<open>The model\<close>

section \<open>Declarations\<close>

text \<open>
  The kinds of \<^verbatim>\<open>ApiItemKind\<close> (api-extractor-model). The kind \<^verbatim>\<open>None\<close> is written
  \<open>NoneKind\<close>, the others keep their names.
\<close>

datatype ApiItemKind =
    CallSignature | Class | Constructor | ConstructSignature | EntryPoint | Enum
  | EnumMember | Function | IndexSignature | Interface | Method | MethodSignature
  | Model | Namespace | Package | Property | PropertySignature | TypeAlias
  | Variable | NoneKind

text \<open>
  An \<^verbatim>\<open>ApiItem\<close>. The source compares items by reference (\<^verbatim>\<open>===\<close>, keys of a
  \<^verbatim>\<open>Map\<close>); the field \<open>ident\<close> stands for the reference, so that two values are equal
  exactly when they are the same object. \<open>overloadIndex\<close> is \<open>0\<close> and \<open>isStatic\<close>,
  \<open>isEventProperty\<close> are \<open>False\<close> for an item without the corresponding mixin.
  \<open>extendsType\<close> and \<open>implementsTypes\<close> hold the excerpt texts of a class,
  \<open>extendsTypes\<close> those of an interface.
\<close>

datatype ApiItem = ApiItem
  (ident: nat)
  (kind: ApiItemKind)
  (displayName: string)
  (overloadIndex: nat)
  (isStatic: bool)
  (isEventProperty: bool)
  (extendsType: "string option")
  (implementsTypes: "string list")
  (extendsTypes: "string list")
  (members: "ApiItem list")

text \<open>
  \<^verbatim>\<open>getHierarchy()\<close> of the library returns the chain of containers of an item, from the
  root down to the item itself. The functions below that call it take this chain as
  their argument.
\<close>

type_synonym Hierarchy = "ApiItem list"

definition isWrapperKind :: "ApiItemKind \<Rightarrow> bool" where
  "isWrapperKind k = (k = Model \<or> k = Package \<or> k = EntryPoint)"

text \<open>
  \<^verbatim>\<open>getScopedNameWithinPackage()\<close> of the library: the display names from the item up to
  (excluding) the nearest model, package or entry point, outermost first, joined by dots.
\<close>

fun joinWith :: "string \<Rightarrow> string list \<Rightarrow> string" where
  "joinWith sep [] = []"
| "joinWith sep [x] = x"
| "joinWith sep (x # y # ys) = x @ sep @ joinWith sep (y # ys)"

definition getScopedNameWithinPackage :: "Hierarchy \<Rightarrow> string" where
  "getScopedNameWithinPackage h =
     joinWith ''.'' (map displayName (rev (takeWhile (\<lambda>i. \<not> isWrapperKind (kind i)) (rev h))))"

text \<open>The hierarchy of every item of a hierarchy, each a prefix of it, the shortest first.\<close>

definition hierarchies :: "Hierarchy \<Rightarrow> Hierarchy list" where
  "hierarchies h = map (\<lambda>n. take (Suc n) h) [0..<length h]"

section \<open>Type resolution\<close>

definition isWordChar :: "char \<Rightarrow> bool" where
  "isWordChar c =
     ((CHR ''a'' \<le> c \<and> c \<le> CHR ''z'') \<or> (CHR ''A'' \<le> c \<and> c \<le> CHR ''Z'')
      \<or> (CHR ''0'' \<le> c \<and> c \<le> CHR ''9'') \<or> c = CHR ''_'')"

text \<open>The test \<^verbatim>\<open>/^[\w_]/.test(type)\<close>.\<close>

definition startsWithWordChar :: "string \<Rightarrow> bool" where
  "startsWithWordChar s = (case s of [] \<Rightarrow> False | c # _ \<Rightarrow> isWordChar c)"

text \<open>
  The candidate names: one per item of the hierarchy, reversed, collected in a
  \<^verbatim>\<open>Set\<close>, which keeps the first occurrence of each name in insertion order.
\<close>

fun setOrder :: "'a list \<Rightarrow> 'a list" where
  "setOrder [] = []"
| "setOrder (x # xs) = x # filter (\<lambda>y. y \<noteq> x) (setOrder xs)"

definition candidates :: "Hierarchy \<Rightarrow> string \<Rightarrow> string list" where
  "candidates h type =
     setOrder (rev (map (\<lambda>hi. let itemName = getScopedNameWithinPackage hi
                             in if itemName \<noteq> [] then itemName @ ''.'' @ type else type)
                        (hierarchies h)))"

fun firstHit :: "(string \<rightharpoonup> ApiItem) \<Rightarrow> string list \<Rightarrow> ApiItem option" where
  "firstHit typeMap [] = None"
| "firstHit typeMap (name # names) =
     (if typeMap name \<noteq> None then typeMap name else firstHit typeMap names)"

definition resolveType :: "(string \<rightharpoonup> ApiItem) \<Rightarrow> Hierarchy \<Rightarrow> string \<Rightarrow> ApiItem option" where
  "resolveType typeMap originHierarchy type =
     (if \<not> startsWithWordChar type then None
      else firstHit typeMap (candidates originHierarchy type))"


section \<open>Base types of classes and interfaces\<close>

text \<open>
  A reference to a parent: \<^verbatim>\<open>ApiItem | string\<close>. A string is the label kept for a name
  that is not in the type table.
\<close>

datatype Ref = Item ApiItem | Label string

text \<open>
  \<^verbatim>\<open>_getType\<close> hands the text to the TypeScript compiler (\<^verbatim>\<open>ts.createSourceFile\<close>) and
  returns the type node of \<^verbatim>\<open>const a:<text>\<close>. The compiler is a library: the parser is
  a parameter \<open>getType\<close>, and of its result only what \<^verbatim>\<open>_extractBaseType\<close> reads is
  kept: whether the node is a \<^verbatim>\<open>TypeReference\<close>, and then the text of its type name;
  any other node carries the name of its syntax kind.
\<close>

datatype TypeNode = TypeReference string | OtherTypeNode string

definition extractBaseType ::
  "(string \<Rightarrow> TypeNode) \<Rightarrow> (string \<rightharpoonup> ApiItem) \<Rightarrow> Hierarchy \<Rightarrow> string \<Rightarrow> Ref option" where
  "extractBaseType getType typeMap originHierarchy type =
     (case getType type of
        TypeReference typeText \<Rightarrow>
          (case resolveType typeMap originHierarchy typeText of
             Some item \<Rightarrow> Some (Item item)
           | None \<Rightarrow> Some (Label typeText))
      | OtherTypeNode _ \<Rightarrow> None)"

section \<open>Page paths\<close>

definition toLowerChar :: "char \<Rightarrow> char" where
  "toLowerChar c =
     (if CHR ''A'' \<le> c \<and> c \<le> CHR ''Z'' then char_of (of_char c + (32::nat)) else c)"

text \<open>\<^verbatim>\<open>String.prototype.toLowerCase\<close> on the ASCII letters.\<close>

definition toLowerCase :: "string \<Rightarrow> string" where
  "toLowerCase s = map toLowerChar s"

definition digitChar :: "nat \<Rightarrow> char" where
  "digitChar d = char_of (48 + d)"

text \<open>The decimal digits of a number, as a template string prints it.\<close>

fun natToString :: "nat \<Rightarrow> string" where
  "natToString n = (if n < 10 then [digitChar n] else natToString (n div 10) @ [digitChar (n mod 10)])"

declare natToString.simps [simp del]

definition getAnchorForApiItem :: "ApiItem \<Rightarrow> string option" where
  "getAnchorForApiItem apiItem =
     (let anchor =
            (if kind apiItem = MethodSignature \<or> kind apiItem = Method
               then Some (displayName apiItem @ ''-method'')
             else if kind apiItem = PropertySignature \<or> kind apiItem = Property
               then (if isEventProperty apiItem
                       then Some (displayName apiItem @ ''-event'')
                       else Some (displayName apiItem @ ''-property''))
             else None);
          anchor2 =
            (case anchor of
               Some a \<Rightarrow> if a \<noteq> [] \<and> isStatic apiItem then Some (a @ ''-static'') else Some a
             | None \<Rightarrow> None)
      in case anchor2 of
           Some a \<Rightarrow>
             if a \<noteq> [] \<and> overloadIndex apiItem > 0
               then Some (a @ ''-'' @ natToString (overloadIndex apiItem))
               else Some a
         | None \<Rightarrow> None)"

definition folderOf :: "ApiItemKind \<Rightarrow> string option" where
  "folderOf k =
     (case k of
        Class \<Rightarrow> Some ''classes''
      | Enum \<Rightarrow> Some ''enums''
      | Interface \<Rightarrow> Some ''interfaces''
      | Namespace \<Rightarrow> Some ''namespaces''
      | TypeAlias \<Rightarrow> Some ''types''
      | Variable \<Rightarrow> Some ''variables''
      | Function \<Rightarrow> Some ''variables''
      | _ \<Rightarrow> None)"

definition qualifiedNameOf :: "ApiItem \<Rightarrow> string" where
  "qualifiedNameOf hierarchyItem =
     (if overloadIndex hierarchyItem > 0
        then displayName hierarchyItem @ ''_'' @ natToString (overloadIndex hierarchyItem)
        else displayName hierarchyItem)"

text \<open>
  One turn of the loop of \<^verbatim>\<open>_getFilenameForApiItem\<close> over the hierarchy; the state is
  \<open>(baseName, hashName)\<close>.
\<close>

definition filenameStep :: "string \<times> string option \<Rightarrow> ApiItem \<Rightarrow> string \<times> string option" where
  "filenameStep st hierarchyItem =
     (let baseName = fst st; hashName = snd st; k = kind hierarchyItem
      in if k = Model \<or> k = EntryPoint \<or> k = Package then (baseName, hashName)
         else if k = Method \<or> k = MethodSignature \<or> k = Property \<or> k = PropertySignature
           then (baseName, getAnchorForApiItem hierarchyItem)
         else (baseName
                 @ (if baseName \<noteq> [] then ''/'' else [])
                 @ (case folderOf k of Some folder \<Rightarrow> folder @ ''/'' | None \<Rightarrow> [])
                 @ qualifiedNameOf hierarchyItem,
               hashName))"

definition getFilenameForApiItem :: "Hierarchy \<Rightarrow> string" where
  "getFilenameForApiItem h =
     (let st = foldl filenameStep ([], None) h;
          lowered = toLowerCase (fst st);
          name = (if lowered \<noteq> [] then lowered else ''index'') @ ''.md''
      in case snd st of
           Some hashName \<Rightarrow> if hashName \<noteq> [] then name @ ''#'' @ hashName else name
         | None \<Rightarrow> name)"


section \<open>Relative links\<close>

text \<open>
  The functions \<^verbatim>\<open>path.dirname\<close> and \<^verbatim>\<open>path.relative\<close> belong to Node.js. They are
  modelled as the POSIX variant documents them, on paths cut into segments at the
  slashes. \<open>cwd\<close> stands for \<^verbatim>\<open>process.cwd()\<close>, against which \<^verbatim>\<open>path.relative\<close> resolves
  both of its arguments.
\<close>

fun splitSlash :: "string \<Rightarrow> string list" where
  "splitSlash [] = [] # []"
| "splitSlash (c # cs) =
     (if c = CHR ''/'' then [] # splitSlash cs
      else (case splitSlash cs of
              [] \<Rightarrow> [c] # []
            | seg # segs \<Rightarrow> (c # seg) # segs))"

text \<open>
  One step of the normalisation of a path: empty segments and \<^verbatim>\<open>.\<close> are dropped, \<^verbatim>\<open>..\<close>
  removes the segment before it; where there is none, it is kept in a relative path
  (\<open>aboveRoot\<close>) and dropped at the root.
\<close>

definition pushSegment :: "bool \<Rightarrow> string list \<Rightarrow> string \<Rightarrow> string list" where
  "pushSegment aboveRoot stack seg =
     (if seg = [] \<or> seg = ''.'' then stack
      else if seg = ''..'' then
        (if stack \<noteq> [] \<and> last stack \<noteq> ''..'' then butlast stack
         else if aboveRoot then stack @ [''..''] else stack)
      else stack @ [seg])"

definition normalizeSegments :: "bool \<Rightarrow> string list \<Rightarrow> string list" where
  "normalizeSegments aboveRoot segs = foldl (pushSegment aboveRoot) [] segs"

definition isAbsolute :: "string \<Rightarrow> bool" where
  "isAbsolute p = (case p of [] \<Rightarrow> False | c # _ \<Rightarrow> c = CHR ''/'')"

text \<open>\<^verbatim>\<open>path.resolve(p)\<close>, as the segments below the root.\<close>

definition resolveSegments :: "string \<Rightarrow> string \<Rightarrow> string list" where
  "resolveSegments cwd p =
     normalizeSegments False (splitSlash (if isAbsolute p then p else cwd @ ''/'' @ p))"

fun dropCommonPrefix :: "string list \<Rightarrow> string list \<Rightarrow> string list \<times> string list" where
  "dropCommonPrefix (x # xs) (y # ys) =
     (if x = y then dropCommonPrefix xs ys else (x # xs, y # ys))"
| "dropCommonPrefix xs ys = (xs, ys)"

definition path_relative :: "string \<Rightarrow> string \<Rightarrow> string \<Rightarrow> string" where
  "path_relative cwd from to =
     (if from = to then []
      else let fromSegs = resolveSegments cwd from; toSegs = resolveSegments cwd to
           in if fromSegs = toSegs then []
              else let rest = dropCommonPrefix fromSegs toSegs
                   in joinWith ''/'' (replicate (length (fst rest)) ''..'' @ snd rest))"

text \<open>
  The scan of \<^verbatim>\<open>path.dirname\<close> from the end of the path down to its second character:
  the position of the last slash that has something other than slashes after it.
\<close>

fun dirnameEnd :: "bool \<Rightarrow> string \<Rightarrow> nat option" where
  "dirnameEnd matchedSlash [] = None"
| "dirnameEnd matchedSlash (c # front) =
     (if c = CHR ''/''
        then (if \<not> matchedSlash then Some (Suc (length front)) else dirnameEnd matchedSlash front)
        else dirnameEnd False front)"

definition path_dirname :: "string \<Rightarrow> string" where
  "path_dirname p =
     (case p of
        [] \<Rightarrow> ''.''
      | c # cs \<Rightarrow>
          (case dirnameEnd True (rev cs) of
             None \<Rightarrow> if c = CHR ''/'' then ''/'' else ''.''
           | Some e \<Rightarrow> if c = CHR ''/'' \<and> e = 1 then ''//'' else take e p))"

definition startsWith :: "string \<Rightarrow> string \<Rightarrow> bool" where
  "startsWith pre s = (take (length pre) s = pre)"

text \<open>\<open>contextFilename\<close> is \<^verbatim>\<open>context.filename\<close>, the path of the page being written.\<close>

definition getLinkFilenameForApiItem :: "string \<Rightarrow> string \<Rightarrow> Hierarchy \<Rightarrow> string" where
  "getLinkFilenameForApiItem cwd contextFilename h =
     (let destination = path_relative cwd (path_dirname contextFilename) (getFilenameForApiItem h)
      in if \<not> startsWith ''./'' destination \<and> \<not> startsWith ''../'' destination
           then ''./'' @ destination
           else destination)"


section \<open>Document nodes\<close>

text \<open>
  The nodes that the emitter writes: those of the tsdoc library and those of
  \<^verbatim>\<open>CustomDocNodeKind\<close>. A table cell, a note box and a table row are given by the nodes
  they hold; \<open>DocList\<close> is the kind \<^verbatim>\<open>List\<close>. A link tag carries its code destination (as
  the outcome of its resolution), its URL destination and its link text. \<open>OtherNode\<close>
  stands for every kind that the emitter does not know.
\<close>

datatype CodeDestination =
    Unresolved "string option"
  | ResolvedTo "string option" string

datatype DocNode =
    PlainText string
  | EscapedText string
  | ErrorText string
  | CodeSpan string
  | FencedCode string string
  | HtmlTag string
  | InlineTag
  | SoftBreak
  | LinkTag "CodeDestination option" "string option" "string option"
  | Paragraph "DocNode list"
  | Section "DocNode list"
  | Anchor string
  | Heading string nat
  | DocList "DocNode list"
  | NoteBox "DocNode list"
  | Table "DocNode list list" "DocNode list list list"
  | EmphasisSpan bool bool "DocNode list"
  | OtherNode string

section \<open>The writer\<close>

text \<open>
  Modelled from the spec: the class \<^verbatim>\<open>IndentedWriter\<close> (\<^verbatim>\<open>utils/indentedWriter\<close>) is not among
  the sources. The specification gives the emitter an output buffer with an indentation
  stack, a query for the last character written, and the two primitives that ensure a new
  line and a skipped line. The buffer is the text written so far; every line that
  receives text starts with the prefixes of the indentation stack.
\<close>

record Writer =
  out :: string
  indentStack :: "string list"
  atStartOfLine :: bool

definition newline :: char where
  "newline = CHR 0x0A"

definition carriageReturn :: char where
  "carriageReturn = CHR 0x0D"

definition indentText :: "'a Writer_scheme \<Rightarrow> string" where
  "indentText w = (if atStartOfLine w then concat (indentStack w) else [])"

definition writeLinePart :: "string \<Rightarrow> 'a Writer_scheme \<Rightarrow> 'a Writer_scheme" where
  "writeLinePart message w =
     (if message = [] then w
      else w\<lparr>out := out w @ indentText w @ message, atStartOfLine := False\<rparr>)"

definition writeNewLine :: "'a Writer_scheme \<Rightarrow> 'a Writer_scheme" where
  "writeNewLine w = w\<lparr>out := out w @ indentText w @ [newline], atStartOfLine := True\<rparr>"

fun splitOn :: "char \<Rightarrow> string \<Rightarrow> string list" where
  "splitOn sep [] = [] # []"
| "splitOn sep (c # cs) =
     (if c = sep then [] # splitOn sep cs
      else (case splitOn sep cs of
              [] \<Rightarrow> [c] # []
            | part # parts \<Rightarrow> (c # part) # parts))"

definition writeLaterPart :: "string \<Rightarrow> 'a Writer_scheme \<Rightarrow> 'a Writer_scheme" where
  "writeLaterPart linePart w =
     writeLinePart (filter (\<lambda>c. c \<noteq> carriageReturn) linePart) (writeNewLine w)"

text \<open>
  \<open>writeText\<close> is the method \<^verbatim>\<open>write\<close>. A message is written line by line; a message
  without a line break is written as it is.
\<close>

definition writeText :: "string \<Rightarrow> 'a Writer_scheme \<Rightarrow> 'a Writer_scheme" where
  "writeText message w =
     (if message = [] then w
      else if newline \<notin> set message \<and> carriageReturn \<notin> set message
        then writeLinePart message w
      else (case splitOn newline message of
              [] \<Rightarrow> w
            | firstPart # laterParts \<Rightarrow>
                fold writeLaterPart laterParts
                  (writeLinePart (filter (\<lambda>c. c \<noteq> carriageReturn) firstPart) w)))"

definition writeLine :: "string \<Rightarrow> 'a Writer_scheme \<Rightarrow> 'a Writer_scheme" where
  "writeLine message w = writeNewLine (writeText message w)"

text \<open>The last character written and the one before it; the empty string when there is none.\<close>

definition peekLastCharacter :: "'a Writer_scheme \<Rightarrow> string" where
  "peekLastCharacter w = (case rev (out w) of [] \<Rightarrow> [] | c # _ \<Rightarrow> [c])"

definition peekSecondLastCharacter :: "'a Writer_scheme \<Rightarrow> string" where
  "peekSecondLastCharacter w = (case rev (out w) of _ # c # _ \<Rightarrow> [c] | _ \<Rightarrow> [])"

definition ensureNewLine :: "'a Writer_scheme \<Rightarrow> 'a Writer_scheme" where
  "ensureNewLine w =
     (if peekLastCharacter w \<noteq> [newline] \<and> peekLastCharacter w \<noteq> [] then writeNewLine w
      else w)"

definition ensureSkippedLine :: "'a Writer_scheme \<Rightarrow> 'a Writer_scheme" where
  "ensureSkippedLine w =
     (let w1 = (if peekLastCharacter w \<noteq> [newline] then writeNewLine w else w)
      in if peekSecondLastCharacter w1 \<noteq> [newline] \<and> peekSecondLastCharacter w1 \<noteq> []
           then writeNewLine w1
           else w1)"

definition increaseIndent :: "string \<Rightarrow> 'a Writer_scheme \<Rightarrow> 'a Writer_scheme" where
  "increaseIndent prefix w = w\<lparr>indentStack := indentStack w @ [prefix]\<rparr>"

definition decreaseIndent :: "'a Writer_scheme \<Rightarrow> 'a Writer_scheme" where
  "decreaseIndent w = w\<lparr>indentStack := butlast (indentStack w)\<rparr>"

section \<open>The emitter\<close>

text \<open>
  \<^verbatim>\<open>MarkdownEmitterContext\<close>: the writer with the flag \<open>insideTable\<close> and the depth
  \<open>listLevel\<close>. The flags \<^verbatim>\<open>writingBold\<close> and \<^verbatim>\<open>writingItalic\<close> are never read.
\<close>

record EmitterContext = Writer +
  insideTable :: bool
  listLevel :: nat

definition backslash :: char where
  "backslash = CHR 0x5C"

definition isSpecialChar :: "char \<Rightarrow> bool" where
  "isSpecialChar c =
     (c = CHR ''*'' \<or> c = CHR ''#'' \<or> c = CHR ''['' \<or> c = CHR '']'' \<or> c = CHR ''_''
      \<or> c = CHR ''|'' \<or> c = CHR 0x60 \<or> c = CHR ''~'')"

fun escapeHyphens :: "string \<Rightarrow> string" where
  "escapeHyphens (a # b # c # rest) =
     (if a = CHR ''-'' \<and> b = CHR ''-'' \<and> c = CHR ''-''
        then [backslash, CHR ''-'', backslash, CHR ''-'', backslash, CHR ''-''] @ escapeHyphens rest
        else a # escapeHyphens (b # c # rest))"
| "escapeHyphens s = s"

definition replaceChar :: "char \<Rightarrow> string \<Rightarrow> string \<Rightarrow> string" where
  "replaceChar c by text = concat (map (\<lambda>x. if x = c then by else [x]) text)"

definition getEscapedText :: "string \<Rightarrow> string" where
  "getEscapedText text =
     replaceChar CHR ''>'' ''&gt;''
       (replaceChar CHR ''<'' ''&lt;''
          (replaceChar CHR ''&'' ''&amp;''
             (escapeHyphens
                (concat (map (\<lambda>x. if isSpecialChar x then [backslash, x] else [x])
                   (replaceChar backslash [backslash, backslash] text))))))"

text \<open>The class \<^verbatim>\<open>\s\<close> of a regular expression, on the ASCII characters.\<close>

definition isSpace :: "char \<Rightarrow> bool" where
  "isSpace c =
     (c = CHR '' '' \<or> c = CHR 0x09 \<or> c = CHR 0x0A \<or> c = CHR 0x0B \<or> c = CHR 0x0C
      \<or> c = CHR 0x0D)"

text \<open>\<^verbatim>\<open>text.replace(/\s+/g, ' ')\<close>.\<close>

fun collapseSpacesFrom :: "bool \<Rightarrow> string \<Rightarrow> string" where
  "collapseSpacesFrom inRun [] = []"
| "collapseSpacesFrom inRun (c # cs) =
     (if isSpace c
        then (if inRun then collapseSpacesFrom True cs else CHR '' '' # collapseSpacesFrom True cs)
        else c # collapseSpacesFrom False cs)"

definition collapseSpaces :: "string \<Rightarrow> string" where
  "collapseSpaces text = collapseSpacesFrom False text"

text \<open>
  \<^verbatim>\<open>writePlainText\<close>. The expression \<^verbatim>\<open>/^(\s*)(.*?)(\s*)$/\<close> cuts the text into leading
  white space, middle and trailing white space. It does not match when the middle holds a
  line break; then \<^verbatim>\<open>parts[1]\<close> is undefined and the call of the writer fails.
\<close>

definition writePlainText :: "string \<Rightarrow> EmitterContext \<Rightarrow> string + EmitterContext" where
  "writePlainText text ctx =
     (let leading = takeWhile isSpace text;
          rest = dropWhile isSpace text;
          trailing = rev (takeWhile isSpace (rev rest));
          middle = rev (dropWhile isSpace (rev rest))
      in if newline \<in> set middle \<or> carriageReturn \<in> set middle
           then Inl ''TypeError''
         else
           (let ctx1 = writeText leading ctx;
                ctx2 =
                  (if middle \<noteq> [] then
                     writeText (getEscapedText middle)
                       (if peekLastCharacter ctx1 = [] \<or> peekLastCharacter ctx1 = [newline]
                           \<or> peekLastCharacter ctx1 = '' '' \<or> peekLastCharacter ctx1 = ''[''
                           \<or> peekLastCharacter ctx1 = ''>''
                          then ctx1
                          else writeText ''<!-- -->'' ctx1)
                   else ctx1)
            in Inr (writeText trailing ctx2)))"

definition writeLinkTagWithUrlDestination ::
  "string \<Rightarrow> string option \<Rightarrow> EmitterContext \<Rightarrow> EmitterContext" where
  "writeLinkTagWithUrlDestination urlDestination linkText ctx =
     (let text = (case linkText of Some t \<Rightarrow> t | None \<Rightarrow> urlDestination);
          encodedLinkText = getEscapedText (collapseSpaces text)
      in writeText ('']('' @ urlDestination @ '')'') (writeText encodedLinkText (writeText ''['' ctx)))"

text \<open>
  \<^verbatim>\<open>writeLinkTagWithCodeDestination\<close>. The resolution of the reference and the file name of
  the resolved item come with the node: \<open>ResolvedTo filename scopedName\<close>.
\<close>

definition writeLinkTagWithCodeDestination ::
  "CodeDestination \<Rightarrow> string option \<Rightarrow> EmitterContext \<Rightarrow> EmitterContext" where
  "writeLinkTagWithCodeDestination destination linkText ctx =
     (case destination of
        Unresolved _ \<Rightarrow> ctx
      | ResolvedTo filename scopedName \<Rightarrow>
          (case filename of
             None \<Rightarrow> ctx
           | Some file \<Rightarrow>
               if file = [] then ctx
               else
                 (let text0 = (case linkText of Some t \<Rightarrow> t | None \<Rightarrow> []);
                      text = (if text0 = [] then scopedName else text0)
                  in if text \<noteq> []
                       then writeText ('']('' @ file @ '')'')
                              (writeText (getEscapedText (collapseSpaces text)) (writeText ''['' ctx))
                       else ctx)))"

text \<open>\<^verbatim>\<open>code.replace(/\|/g, '\\|').split(/\r?\n/g)\<close>, joined again by \<open>sep\<close>.\<close>

fun splitLines :: "string \<Rightarrow> string list" where
  "splitLines [] = [] # []"
| "splitLines [c] = (if c = newline then [] # [] # [] else [c] # [])"
| "splitLines (c # d # cs) =
     (if c = carriageReturn \<and> d = newline then [] # splitLines cs
      else if c = newline then [] # splitLines (d # cs)
      else (case splitLines (d # cs) of
              [] \<Rightarrow> [c] # []
            | part # parts \<Rightarrow> (c # part) # parts))"

definition escapePipes :: "string \<Rightarrow> string" where
  "escapePipes code = replaceChar CHR ''|'' [backslash, CHR ''|''] code"

definition headingPrefix :: "nat \<Rightarrow> string" where
  "headingPrefix level =
     (if level = 1 then ''#'' else if level = 2 then ''##'' else if level = 3 then ''###''
      else ''####'')"

definition quote :: char where
  "quote = CHR 0x22"

definition setInsideTable :: "bool \<Rightarrow> EmitterContext \<Rightarrow> EmitterContext" where
  "setInsideTable b ctx = ctx\<lparr>insideTable := b\<rparr>"

text \<open>The column count of a table: the loop over the rows, started at the size of the header.\<close>

definition columnCount :: "DocNode list list \<Rightarrow> DocNode list list list \<Rightarrow> nat" where
  "columnCount header rows =
     foldl (\<lambda>count row. if length row > count then length row else count) (length header) rows"

text \<open>
  \<^verbatim>\<open>writeNode\<close> of \<^verbatim>\<open>CustomMarkdownEmitter\<close>, with the cases of \<^verbatim>\<open>MarkdownEmitter\<close> that it
  falls back to, and the loops it runs: \<open>writeNodes\<close>, \<open>writeListNodes\<close> over the nodes of
  a list, \<open>writeHeaderCells\<close> over the columns of the header (the count of the columns
  left, and the cells of the header left), \<open>writeRowCells\<close> and \<open>writeRows\<close>. The result
  is \<open>Inl\<close> when the source throws. A \<open>Paragraph\<close> holds the nodes that
  \<^verbatim>\<open>DocNodeTransforms.trimSpacesInParagraph\<close> of the library returns. The content of a
  cell or of a note box is a section; it is written through \<open>writeNodes\<close>.
\<close>

fun writeNode :: "DocNode \<Rightarrow> bool \<Rightarrow> EmitterContext \<Rightarrow> string + EmitterContext"
  and writeNodes :: "DocNode list \<Rightarrow> EmitterContext \<Rightarrow> string + EmitterContext"
  and writeListNodes :: "DocNode list \<Rightarrow> EmitterContext \<Rightarrow> string + EmitterContext"
  and writeHeaderCells :: "nat \<Rightarrow> DocNode list list \<Rightarrow> EmitterContext \<Rightarrow> string + EmitterContext"
  and writeRowCells :: "DocNode list list \<Rightarrow> EmitterContext \<Rightarrow> string + EmitterContext"
  and writeRows :: "DocNode list list list \<Rightarrow> EmitterContext \<Rightarrow> string + EmitterContext"
where
  "writeNode (PlainText text) hasNextSibling ctx = writePlainText text ctx"
| "writeNode (HtmlTag html) hasNextSibling ctx = Inr (writeText html ctx)"
| "writeNode (CodeSpan code) hasNextSibling ctx =
     (if insideTable ctx then
        (let parts = splitLines (escapePipes code)
         in if length parts > 1
              then Inr (writeText (''<pre>'' @ joinWith ''&#010;'' parts @ ''</pre>'') ctx)
              else Inr (writeText ([CHR 0x60] @ escapePipes code @ [CHR 0x60]) ctx))
      else Inr (writeText ([CHR 0x60] @ code @ [CHR 0x60]) ctx))"
| "writeNode (LinkTag codeDestination urlDestination linkText) hasNextSibling ctx =
     (case codeDestination of
        Some destination \<Rightarrow> Inr (writeLinkTagWithCodeDestination destination linkText ctx)
      | None \<Rightarrow>
          (case urlDestination of
             Some url \<Rightarrow>
               if url \<noteq> [] then Inr (writeLinkTagWithUrlDestination url linkText ctx)
               else (case linkText of
                       Some text \<Rightarrow> if text \<noteq> [] then writePlainText text ctx else Inr ctx
                     | None \<Rightarrow> Inr ctx)
           | None \<Rightarrow>
               (case linkText of
                  Some text \<Rightarrow> if text \<noteq> [] then writePlainText text ctx else Inr ctx
                | None \<Rightarrow> Inr ctx)))"
| "writeNode (Paragraph nodes) hasNextSibling ctx =
     (if insideTable ctx then
        (case writeNodes nodes ctx of
           Inl e \<Rightarrow> Inl e
         | Inr ctx1 \<Rightarrow> Inr (if hasNextSibling then writeText ''<br><br>'' ctx1 else ctx1))
      else
        (case writeNodes nodes ctx of
           Inl e \<Rightarrow> Inl e
         | Inr ctx1 \<Rightarrow> Inr (writeLine [] (ensureNewLine ctx1))))"
| "writeNode (FencedCode language code) hasNextSibling ctx =
     (if insideTable ctx then
        Inr (writeText (''<pre lang='' @ [quote] @ language @ [quote] @ ''>''
                      @ joinWith ''&#010;'' (splitLines (escapePipes code)) @ ''</pre>'') ctx)
      else
        Inr (writeLine [CHR 0x60, CHR 0x60, CHR 0x60]
               (writeLine []
                  (writeText code
                     (writeLine []
                        (writeText language
                           (writeText [CHR 0x60, CHR 0x60, CHR 0x60] (ensureNewLine ctx))))))))"
| "writeNode (Section nodes) hasNextSibling ctx = writeNodes nodes ctx"
| "writeNode SoftBreak hasNextSibling ctx =
     (if peekLastCharacter ctx = [] \<or> (\<exists>c \<in> set (peekLastCharacter ctx). isSpace c)
        then Inr ctx
        else Inr (writeText '' '' ctx))"
| "writeNode (EscapedText decodedText) hasNextSibling ctx = writePlainText decodedText ctx"
| "writeNode (ErrorText text) hasNextSibling ctx = writePlainText text ctx"
| "writeNode InlineTag hasNextSibling ctx = Inr ctx"
| "writeNode (OtherNode k) hasNextSibling ctx = Inl (''Unsupported element kind: '' @ k)"
| "writeNode (Anchor anchorId) hasNextSibling ctx =
     Inr (writeLine []
            (writeLine (''<a id='' @ [quote] @ anchorId @ [quote] @ ''></a>'')
               (ensureSkippedLine ctx)))"
| "writeNode (Heading title level) hasNextSibling ctx =
     Inr (writeLine []
            (writeLine (headingPrefix level @ '' '' @ getEscapedText title)
               (ensureSkippedLine ctx)))"
| "writeNode (DocList nodes) hasNextSibling ctx =
     (let ctx1 = ctx\<lparr>listLevel := listLevel ctx + 1\<rparr>;
          ctx2 = (if listLevel ctx1 = 1 then ensureSkippedLine ctx1 else ctx1)
      in case writeListNodes nodes ctx2 of
           Inl e \<Rightarrow> Inl e
         | Inr ctx3 \<Rightarrow>
             (let ctx4 = ctx3\<lparr>listLevel := listLevel ctx3 - 1\<rparr>
              in Inr (if listLevel ctx4 = 1 then ensureSkippedLine ctx4 else ctx4)))"
| "writeNode (NoteBox content) hasNextSibling ctx =
     (case writeNodes content (increaseIndent ''> '' (ensureNewLine ctx)) of
        Inl e \<Rightarrow> Inl e
      | Inr ctx1 \<Rightarrow> Inr (writeLine [] (decreaseIndent (ensureNewLine ctx1))))"
| "writeNode (Table header rows) hasNextSibling ctx =
     (case writeHeaderCells (columnCount header rows) header
             (writeText ''| '' (setInsideTable True (ensureSkippedLine ctx))) of
        Inl e \<Rightarrow> Inl e
      | Inr ctx1 \<Rightarrow>
          (case writeRows rows
                  (writeLine []
                     (fold (\<lambda>i. writeText '' --- |'') [0..<columnCount header rows]
                        (writeText ''| '' (writeLine [] ctx1)))) of
             Inl e \<Rightarrow> Inl e
           | Inr ctx2 \<Rightarrow> Inr (setInsideTable False (writeLine [] ctx2))))"
| "writeNode (EmphasisSpan bold italic nodes) hasNextSibling ctx =
     (case writeNodes nodes
             ((if italic then writeText ''<i>'' else id) ((if bold then writeText ''<b>'' else id) ctx)) of
        Inl e \<Rightarrow> Inl e
      | Inr ctx1 \<Rightarrow>
          Inr ((if bold then writeText ''</b>'' else id) ((if italic then writeText ''</i>'' else id) ctx1)))"
| "writeNodes [] ctx = Inr ctx"
| "writeNodes (docNode # docNodes) ctx =
     (case writeNode docNode (docNodes \<noteq> []) ctx of
        Inl e \<Rightarrow> Inl e
      | Inr ctx1 \<Rightarrow> writeNodes docNodes ctx1)"
| "writeListNodes [] ctx = Inr ctx"
| "writeListNodes (DocList nested # nodes) ctx =
     (case writeNode (DocList nested) False ctx of
        Inl e \<Rightarrow> Inl e
      | Inr ctx1 \<Rightarrow> writeListNodes nodes ctx1)"
| "writeListNodes (node # nodes) ctx =
     (case writeNode node False
             (writeText (concat (replicate ((listLevel ctx - 1) * 2) ''  '') @ ''- '')
                (ensureNewLine ctx)) of
        Inl e \<Rightarrow> Inl e
      | Inr ctx1 \<Rightarrow> writeListNodes nodes ctx1)"
| "writeHeaderCells 0 cells ctx = Inr ctx"
| "writeHeaderCells (Suc k) [] ctx =
     writeHeaderCells k [] (writeText '' |'' (writeText '' '' ctx))"
| "writeHeaderCells (Suc k) (cell # cells) ctx =
     (case writeNodes cell (writeText '' '' ctx) of
        Inl e \<Rightarrow> Inl e
      | Inr ctx1 \<Rightarrow> writeHeaderCells k cells (writeText '' |'' ctx1))"
| "writeRowCells [] ctx = Inr ctx"
| "writeRowCells (cell # cells) ctx =
     (case writeNodes cell (writeText '' '' ctx) of
        Inl e \<Rightarrow> Inl e
      | Inr ctx1 \<Rightarrow> writeRowCells cells (writeText '' |'' ctx1))"
| "writeRows [] ctx = Inr ctx"
| "writeRows (row # rows) ctx =
     (case writeRowCells row (writeText ''| '' ctx) of
        Inl e \<Rightarrow> Inl e
      | Inr ctx1 \<Rightarrow> writeRows rows (writeLine [] ctx1))"

definition emptyContext :: EmitterContext where
  "emptyContext =
     \<lparr>out = [], indentStack = [], atStartOfLine = True, insideTable = False, listLevel = 0\<rparr>"

definition emit :: "DocNode \<Rightarrow> string + string" where
  "emit docNode =
     (case writeNode docNode False emptyContext of
        Inl e \<Rightarrow> Inl e
      | Inr ctx \<Rightarrow> Inr (out (ensureNewLine ctx)))"

section \<open>Type cells\<close>


section \<open>The inheritance note\<close>

text \<open>
  \<open>getHierarchy\<close> gives the hierarchy of the parent, for its scoped name and its link.
\<close>

definition inheritanceNoteText :: "ApiItem \<Rightarrow> ApiItem \<Rightarrow> string" where
  "inheritanceNoteText apiItem parent =
     (if apiItem = parent then ''Inherited from ''
      else if (kind apiItem = Method \<or> kind parent = Property)
              \<and> (kind apiItem = MethodSignature \<or> kind parent = PropertySignature)
        then ''Implements ''
      else ''Overrides '')"


section \<open>The inheritance map\<close>

text \<open>
  A JavaScript \<^verbatim>\<open>Map\<close> keeps its keys in insertion order: it is an association list in
  which \<open>mapSet\<close> replaces the value of a present key in place and appends an absent one.
\<close>

fun mapGet :: "('k \<times> 'v) list \<Rightarrow> 'k \<Rightarrow> 'v option" where
  "mapGet [] k = None"
| "mapGet ((k', v) # m) k = (if k' = k then Some v else mapGet m k)"

fun mapSet :: "'k \<Rightarrow> 'v \<Rightarrow> ('k \<times> 'v) list \<Rightarrow> ('k \<times> 'v) list" where
  "mapSet k v [] = [(k, v)]"
| "mapSet k v ((k', v') # m) = (if k' = k then (k, v) # m else (k', v') # mapSet k v m)"

record Refs =
  parentClass :: "Ref option"
  childClasses :: "Ref list"
  parentInterfaces :: "Ref list"
  childInterfaces :: "Ref list"

type_synonym InheritanceMap = "(ApiItem \<times> Refs) list"

definition emptyRefs :: Refs where
  "emptyRefs = \<lparr>parentClass = None, childClasses = [], parentInterfaces = [], childInterfaces = []\<rparr>"

text \<open>JavaScript truthiness of an \<^verbatim>\<open>ApiItem | string\<close>: only the empty string is falsy.\<close>

definition truthyRef :: "Ref \<Rightarrow> bool" where
  "truthyRef r = (case r of Item _ \<Rightarrow> True | Label s \<Rightarrow> s \<noteq> [])"

text \<open>The loop over heritage texts that pushes every truthy result of \<open>extractBaseType\<close>.\<close>

definition resolvedBases ::
  "(string \<Rightarrow> TypeNode) \<Rightarrow> (string \<rightharpoonup> ApiItem) \<Rightarrow> Hierarchy \<Rightarrow> string list \<Rightarrow> Ref list" where
  "resolvedBases getType typeMap h texts =
     concat (map (\<lambda>text. case extractBaseType getType typeMap h text of
                            Some r \<Rightarrow> if truthyRef r then [r] else []
                          | None \<Rightarrow> []) texts)"

definition forwardRefs ::
  "(string \<Rightarrow> TypeNode) \<Rightarrow> (string \<rightharpoonup> ApiItem) \<Rightarrow> Hierarchy \<Rightarrow> ApiItem \<Rightarrow> Refs option" where
  "forwardRefs getType typeMap h child =
     (if kind child = Class then
        Some \<lparr>parentClass =
                 (case extendsType child of
                    Some parentClassText \<Rightarrow> extractBaseType getType typeMap h parentClassText
                  | None \<Rightarrow> None),
              childClasses = [],
              parentInterfaces = resolvedBases getType typeMap h (implementsTypes child),
              childInterfaces = []\<rparr>
      else if kind child = Interface then
        Some \<lparr>parentClass = None,
              childClasses = [],
              parentInterfaces = resolvedBases getType typeMap h (extendsTypes child),
              childInterfaces = []\<rparr>
      else None)"

text \<open>
  The first loop of \<^verbatim>\<open>_generateClassHierarchy\<close>: a queue of declarations, each with the
  chain of its containers (its hierarchy is \<open>ancestors @ [child]\<close>).
\<close>

function forwardLoop ::
  "(string \<Rightarrow> TypeNode) \<Rightarrow> (string \<rightharpoonup> ApiItem) \<Rightarrow> (Hierarchy \<times> ApiItem) list
     \<Rightarrow> InheritanceMap \<Rightarrow> InheritanceMap" where
  "forwardLoop getType typeMap [] m = m"
| "forwardLoop getType typeMap ((ancestors, child) # children) m =
     forwardLoop getType typeMap
       (children @ map (\<lambda>member. (ancestors @ [child], member)) (members child))
       (case forwardRefs getType typeMap (ancestors @ [child]) child of
          Some refs \<Rightarrow> mapSet child refs m
        | None \<Rightarrow> m)"
  by pat_completeness auto
termination
proof (relation "measure (\<lambda>(getType, typeMap, children, m). sum_list (map (\<lambda>c. size (snd c)) children))")
  show "wf (measure (\<lambda>(getType, typeMap, children, m). sum_list (map (\<lambda>c. size (snd c)) children)))"
    by simp
next
  fix getType :: "string \<Rightarrow> TypeNode" and typeMap :: "string \<rightharpoonup> ApiItem"
    and ancestors child and children :: "(Hierarchy \<times> ApiItem) list" and m :: InheritanceMap
  have "sum_list (map size (members child)) < size child"
    by (cases child) (simp add: size_list_conv_sum_list)
  then show "((getType, typeMap,
                children @ map (\<lambda>member. (ancestors @ [child], member)) (members child),
                case forwardRefs getType typeMap (ancestors @ [child]) child of
                  None \<Rightarrow> m | Some refs \<Rightarrow> mapSet child refs m),
               getType, typeMap, (ancestors, child) # children, m)
             \<in> measure (\<lambda>(getType, typeMap, children, m). sum_list (map (\<lambda>c. size (snd c)) children))"
    by (simp add: comp_def)
qed

text \<open>
  One turn of the second loop: the entry \<open>(child, refs)\<close> of the map adds \<open>child\<close> to
  the record of each of its parents that is a declaration.
\<close>

definition getOrEmpty :: "InheritanceMap \<Rightarrow> ApiItem \<Rightarrow> Refs" where
  "getOrEmpty m k = (case mapGet m k of Some refs \<Rightarrow> refs | None \<Rightarrow> emptyRefs)"

definition addClassParent :: "ApiItem \<Rightarrow> Ref option \<Rightarrow> InheritanceMap \<Rightarrow> InheritanceMap" where
  "addClassParent child pc m =
     (case pc of
        Some (Item parent) \<Rightarrow>
          (let refs = getOrEmpty m parent
           in mapSet parent (refs\<lparr>childInterfaces := childInterfaces refs @ [Item child]\<rparr>) m)
      | _ \<Rightarrow> m)"

definition addInterfaceParent :: "ApiItem \<Rightarrow> Ref \<Rightarrow> InheritanceMap \<Rightarrow> InheritanceMap" where
  "addInterfaceParent child parentInterface m =
     (case parentInterface of
        Label _ \<Rightarrow> m
      | Item parent \<Rightarrow>
          (let refs = getOrEmpty m parent
           in if kind child = Class
                then mapSet parent (refs\<lparr>childClasses := childClasses refs @ [Item child]\<rparr>) m
                else mapSet parent (refs\<lparr>childInterfaces := childInterfaces refs @ [Item child]\<rparr>) m))"

definition reverseStep :: "ApiItem \<times> Refs \<Rightarrow> InheritanceMap \<Rightarrow> InheritanceMap" where
  "reverseStep entry m =
     fold (addInterfaceParent (fst entry)) (parentInterfaces (snd entry))
          (addClassParent (fst entry) (parentClass (snd entry)) m)"

text \<open>
  The second loop iterates over the map while it adds keys to it; a \<^verbatim>\<open>Map\<close> iterator
  also visits the entries added during the iteration, so the loop runs by position until
  it has passed the last entry.
\<close>

partial_function (option) reverseLoop :: "nat \<Rightarrow> InheritanceMap \<Rightarrow> InheritanceMap option" where
  "reverseLoop i m =
     (if i < length m then reverseLoop (Suc i) (reverseStep (m ! i) m) else Some m)"

declare reverseLoop.simps [code]

text \<open>\<open>packageAncestors\<close> is the chain of the containers of the package.\<close>

definition generateClassHierarchy ::
  "(string \<Rightarrow> TypeNode) \<Rightarrow> (string \<rightharpoonup> ApiItem) \<Rightarrow> Hierarchy \<Rightarrow> ApiItem
     \<Rightarrow> InheritanceMap option" where
  "generateClassHierarchy getType typeMap packageAncestors apiPackage =
     reverseLoop 0
       (forwardLoop getType typeMap
          (map (\<lambda>member. (packageAncestors @ [apiPackage], member)) (members apiPackage)) [])"

section \<open>Inherited members\<close>

text \<open>The direct parents of an item, the parent class first.\<close>

definition parentsOf :: "InheritanceMap \<Rightarrow> ApiItem \<Rightarrow> Ref list" where
  "parentsOf im apiItem =
     (case mapGet im apiItem of
        Some refs \<Rightarrow>
          (case parentClass refs of
             Some pc \<Rightarrow> if truthyRef pc then [pc] else []
           | None \<Rightarrow> [])
          @ parentInterfaces refs
      | None \<Rightarrow> [])"









section \<open>Resolved members\<close>





section \<open>Hierarchy trees\<close>




section \<open>Reference formulations\<close>

text \<open>
  The functions of this section are not translations of the source: they state, in closed
  form, what the loops of the source are compared with.
\<close>

subsection \<open>Type resolution\<close>




subsection \<open>Page paths\<close>

definition isAnchorKind :: "ApiItemKind \<Rightarrow> bool" where
  "isAnchorKind k = (k = Method \<or> k = MethodSignature \<or> k = Property \<or> k = PropertySignature)"

text \<open>The items of a hierarchy that contribute to the path of the page.\<close>

definition isPathBearing :: "ApiItem \<Rightarrow> bool" where
  "isPathBearing i = (\<not> isWrapperKind (kind i) \<and> \<not> isAnchorKind (kind i))"

definition folderPrefix :: "ApiItemKind \<Rightarrow> string" where
  "folderPrefix k = (case folderOf k of Some folder \<Rightarrow> folder @ ''/'' | None \<Rightarrow> [])"

definition segmentOf :: "ApiItem \<Rightarrow> string" where
  "segmentOf i = folderPrefix (kind i) @ qualifiedNameOf i"

text \<open>The anchor of the last method or property of the hierarchy.\<close>

definition anchorOf :: "Hierarchy \<Rightarrow> string option" where
  "anchorOf h =
     (case filter (\<lambda>i. isAnchorKind (kind i)) h of
        [] \<Rightarrow> None
      | x # xs \<Rightarrow> getAnchorForApiItem (last (x # xs)))"

definition indexOr :: "string \<Rightarrow> string" where
  "indexOr base = (if base = [] then ''index'' else base)"

definition hashSuffix :: "string option \<Rightarrow> string" where
  "hashSuffix a = (case a of Some anchor \<Rightarrow> ''#'' @ anchor | None \<Rightarrow> [])"

text \<open>
  The path in which every path-bearing item, the last one included, carries the folder of
  its kind, and an overload beyond the first carries its index.
\<close>

definition folderedPath :: "Hierarchy \<Rightarrow> string" where
  "folderedPath h =
     indexOr (toLowerCase (joinWith ''/'' (map segmentOf (filter isPathBearing h))))
       @ ''.md'' @ hashSuffix (anchorOf h)"


definition appendSegment :: "string \<Rightarrow> string \<Rightarrow> string" where
  "appendSegment baseName seg = baseName @ (if baseName \<noteq> [] then ''/'' else []) @ seg"

text \<open>A segment that names a file or a folder by itself.\<close>

definition plainSegment :: "string \<Rightarrow> bool" where
  "plainSegment s = (CHR ''/'' \<notin> set s \<and> s \<noteq> [] \<and> s \<noteq> ''.'' \<and> s \<noteq> ''..'')"

text \<open>
  The declarations of a hierarchy, the model, package and entry point apart, bear names
  that are plain segments (as identifiers are).
\<close>

definition plainNames :: "Hierarchy \<Rightarrow> bool" where
  "plainNames h = (\<forall>i \<in> set h. \<not> isWrapperKind (kind i) \<longrightarrow> plainSegment (displayName i))"

text \<open>The segments of the path of a page, cut at the slashes.\<close>

definition itemSegments :: "ApiItem \<Rightarrow> string list" where
  "itemSegments i =
     (case folderOf (kind i) of Some folder \<Rightarrow> [folder] | None \<Rightarrow> []) @ [qualifiedNameOf i]"

definition pathSegments :: "Hierarchy \<Rightarrow> string list" where
  "pathSegments h =
     (let segs = map toLowerCase (concat (map itemSegments (filter isPathBearing h)));
          suffix = ''.md'' @ hashSuffix (anchorOf h)
      in if segs = [] then [''index'' @ suffix] else butlast segs @ [last segs @ suffix])"

text \<open>
  Where a relative link leads from a page: the link is appended to the directory of the
  path of the page and the result is normalised (\<^verbatim>\<open>path.normalize\<close> of \<^verbatim>\<open>path.join\<close>).
\<close>

definition resolveLink :: "string \<Rightarrow> string \<Rightarrow> string" where
  "resolveLink originPath link =
     joinWith ''/'' (normalizeSegments True (splitSlash (path_dirname originPath) @ splitSlash link))"

subsection \<open>Inheritance\<close>

text \<open>The edges of the inheritance map: \<open>(p, c)\<close> when \<open>p\<close> is a direct parent of the item \<open>c\<close>.\<close>

definition parentRel :: "InheritanceMap \<Rightarrow> (Ref \<times> Ref) set" where
  "parentRel im = {(p, c). \<exists>it. c = Item it \<and> p \<in> set (parentsOf im it)}"

text \<open>The declarations reached from an item by one or more parent edges.\<close>

definition ancestors :: "InheritanceMap \<Rightarrow> ApiItem \<Rightarrow> ApiItem set" where
  "ancestors im apiItem = {a. (Item a, Item apiItem) \<in> (parentRel im)\<^sup>+}"

definition memberNames :: "ApiItem set \<Rightarrow> string set" where
  "memberNames S = (\<Union>a \<in> S. displayName ` set (members a))"

definition reachFrom :: "InheritanceMap \<Rightarrow> Ref set \<Rightarrow> ApiItem set" where
  "reachFrom im S = {a. \<exists>c \<in> S. (Item a, c) \<in> (parentRel im)\<^sup>*}"



text \<open>The merge of \<open>mergeMembers\<close> on the names alone.\<close>

fun mergeNames :: "string list \<Rightarrow> string list \<Rightarrow> string list" where
  "mergeNames [] [] = []"
| "mergeNames [] (b # bs) = b # mergeNames [] bs"
| "mergeNames (a # as) [] = a # mergeNames as []"
| "mergeNames (a # as) (b # bs) =
     (if a > b then b # mergeNames (a # as) bs
      else if a < b then a # mergeNames as (b # bs)
      else a # mergeNames as bs)"




subsection \<open>Tables\<close>

text \<open>
  A row as a sequence of slots: a slot holds a cell or is empty. \<open>padCells n\<close> fills a
  row up to \<open>n\<close> slots with empty ones.
\<close>

definition padCells :: "nat \<Rightarrow> DocNode list list \<Rightarrow> DocNode list option list" where
  "padCells n cells = map Some cells @ replicate (n - length cells) None"

fun writeSlots :: "DocNode list option list \<Rightarrow> EmitterContext \<Rightarrow> string + EmitterContext" where
  "writeSlots [] ctx = Inr ctx"
| "writeSlots (slot # slots) ctx =
     (case (case slot of
              Some cell \<Rightarrow> writeNodes cell (writeText '' '' ctx)
            | None \<Rightarrow> Inr (writeText '' '' ctx)) of
        Inl e \<Rightarrow> Inl e
      | Inr ctx1 \<Rightarrow> writeSlots slots (writeText '' |'' ctx1))"

fun writeSlotRows ::
  "(DocNode list list \<Rightarrow> DocNode list option list) \<Rightarrow> DocNode list list list \<Rightarrow> EmitterContext
     \<Rightarrow> string + EmitterContext" where
  "writeSlotRows padRow [] ctx = Inr ctx"
| "writeSlotRows padRow (row # rows) ctx =
     (case writeSlots (padRow row) (writeText ''| '' ctx) of
        Inl e \<Rightarrow> Inl e
      | Inr ctx1 \<Rightarrow> writeSlotRows padRow rows (writeLine [] ctx1))"

text \<open>The greatest number of cells of the header and of the rows.\<close>

definition maxColumns :: "DocNode list list \<Rightarrow> DocNode list list list \<Rightarrow> nat" where
  "maxColumns header rows = Max (set (length header # map length rows))"

text \<open>
  The table with a header of \<open>maxColumns\<close> slots, a divider of as many columns, and the
  slots \<open>padRow row\<close> for every row.
\<close>

definition renderTable ::
  "(DocNode list list \<Rightarrow> DocNode list option list) \<Rightarrow> DocNode list list \<Rightarrow> DocNode list list list
     \<Rightarrow> EmitterContext \<Rightarrow> string + EmitterContext" where
  "renderTable padRow header rows ctx =
     (case writeSlots (padCells (maxColumns header rows) header)
             (writeText ''| '' (setInsideTable True (ensureSkippedLine ctx))) of
        Inl e \<Rightarrow> Inl e
      | Inr ctx1 \<Rightarrow>
          (case writeSlotRows padRow rows
                  (writeLine []
                     (fold (\<lambda>i. writeText '' --- |'') [0..<maxColumns header rows]
                        (writeText ''| '' (writeLine [] ctx1)))) of
             Inl e \<Rightarrow> Inl e
           | Inr ctx2 \<Rightarrow> Inr (setInsideTable False (writeLine [] ctx2))))"

section \<open>Sample declarations\<close>

text \<open>
  A package with a namespace \<^verbatim>\<open>NS\<close> that holds the classes \<^verbatim>\<open>Foo\<close> and \<^verbatim>\<open>Bar\<close>, and a
  second class \<^verbatim>\<open>Bar\<close> at the top level.
\<close>

definition mkItem :: "nat \<Rightarrow> ApiItemKind \<Rightarrow> string \<Rightarrow> ApiItem list \<Rightarrow> ApiItem" where
  "mkItem i k n ms = ApiItem i k n 0 False False None [] [] ms"





text \<open>
  What the TypeScript parser answers on the texts of the examples: \<^verbatim>\<open>null\<close> is a keyword
  type, \<^verbatim>\<open>Base<T>\<close> a type reference named \<^verbatim>\<open>Base\<close>, a plain name a type reference.
\<close>

definition sampleGetType :: "string \<Rightarrow> TypeNode" where
  "sampleGetType text =
     (if text = ''null'' then OtherTypeNode ''NullKeyword''
      else if text = ''Base<T>'' then TypeReference ''Base''
      else TypeReference text)"


text \<open>
  A package with an interface \<^verbatim>\<open>Walker\<close> that declares \<^verbatim>\<open>speak()\<close>, a class \<^verbatim>\<open>Animal\<close>,
  and a class \<^verbatim>\<open>Dog extends Animal implements Walker\<close> that declares \<^verbatim>\<open>speak()\<close> too.
\<close>

definition walkerSpeak :: ApiItem where
  "walkerSpeak = mkItem 21 MethodSignature ''speak'' []"

definition walkerItem :: ApiItem where
  "walkerItem = mkItem 22 Interface ''Walker'' [walkerSpeak]"

definition animalEat :: ApiItem where
  "animalEat = mkItem 23 Method ''eat'' []"

definition animalItem :: ApiItem where
  "animalItem = mkItem 24 Class ''Animal'' [animalEat]"

definition dogSpeak :: ApiItem where
  "dogSpeak = mkItem 25 Method ''speak'' []"

definition dogItem :: ApiItem where
  "dogItem = ApiItem 26 Class ''Dog'' 0 False False (Some ''Animal'') [''Walker''] [] [dogSpeak]"

definition zooEntryPoint :: ApiItem where
  "zooEntryPoint = mkItem 27 EntryPoint [] [animalItem, dogItem, walkerItem]"

definition zooPackage :: ApiItem where
  "zooPackage = mkItem 28 Package ''zoo'' [zooEntryPoint]"

definition zooModel :: ApiItem where
  "zooModel = mkItem 29 Model [] [zooPackage]"

definition zooHierarchy :: "ApiItem \<Rightarrow> Hierarchy" where
  "zooHierarchy i = [zooModel, zooPackage, zooEntryPoint, i]"

definition zooTypeMap :: "string \<rightharpoonup> ApiItem" where
  "zooTypeMap = map_of [(''Animal'', animalItem), (''Dog'', dogItem), (''Walker'', walkerItem)]"


text \<open>The inheritance map of the package \<^verbatim>\<open>zoo\<close>, as the two loops build it.\<close>

definition zooMap :: InheritanceMap where
  "zooMap =
     [(animalItem, \<lparr>parentClass = None, childClasses = [], parentInterfaces = [],
                     childInterfaces = [Item dogItem]\<rparr>),
      (dogItem, \<lparr>parentClass = Some (Item animalItem), childClasses = [],
                  parentInterfaces = [Item walkerItem], childInterfaces = []\<rparr>),
      (walkerItem, \<lparr>parentClass = None, childClasses = [Item dogItem],
                     parentInterfaces = [], childInterfaces = []\<rparr>)]"






text \<open>
  A malformed package: a class \<^verbatim>\<open>Loop\<close> whose \<^verbatim>\<open>extends\<close> text is its own name, and the
  inheritance map that the two loops build for it.
\<close>

definition loopMethod :: ApiItem where
  "loopMethod = mkItem 51 Method ''run'' []"

definition loopItem :: ApiItem where
  "loopItem = ApiItem 52 Class ''Loop'' 0 False False (Some ''Loop'') [] [] [loopMethod]"

definition loopEntryPoint :: ApiItem where
  "loopEntryPoint = mkItem 53 EntryPoint [] [loopItem]"

definition loopPackage :: ApiItem where
  "loopPackage = mkItem 54 Package ''loop'' [loopEntryPoint]"

definition loopModel :: ApiItem where
  "loopModel = mkItem 55 Model [] [loopPackage]"

definition loopTypeMap :: "string \<rightharpoonup> ApiItem" where
  "loopTypeMap = map_of [(''Loop'', loopItem)]"

definition selfMap :: InheritanceMap where
  "selfMap =
     [(loopItem, \<lparr>parentClass = Some (Item loopItem), childClasses = [],
                   parentInterfaces = [], childInterfaces = [Item loopItem]\<rparr>)]"


text \<open>A table with a header of two cells, a row of one cell and a row of three cells.\<close>

definition textCell :: "string \<Rightarrow> DocNode list" where
  "textCell text = [Paragraph [PlainText text]]"

definition sampleHeader :: "DocNode list list" where
  "sampleHeader = [textCell ''a'', textCell ''b'']"

definition sampleRows :: "DocNode list list list" where
  "sampleRows = [textCell ''x''] # [textCell ''p'', textCell ''q'', textCell ''r''] # []"

definition outputOf :: "string + EmitterContext \<Rightarrow> string + string" where
  "outputOf r = (case r of Inl e \<Rightarrow> Inl e | Inr ctx \<Rightarrow> Inr (out ctx))"

chapter \<open>Properties\<close>

section \<open>Type resolution\<close>









section \<open>Base types\<close>




section \<open>Page paths\<close>

lemma filenameStep_cases:
  "filenameStep (b, a) i =
     (if isWrapperKind (kind i) then (b, a)
      else if isAnchorKind (kind i) then (b, getAnchorForApiItem i)
      else (appendSegment b (segmentOf i), a))"
  by (auto simp: filenameStep_def isWrapperKind_def isAnchorKind_def appendSegment_def
      segmentOf_def folderPrefix_def Let_def)

lemma fst_foldl_filenameStep:
  "fst (foldl filenameStep (b, a) h) =
     foldl appendSegment b (map segmentOf (filter isPathBearing h))"
  by (induction h arbitrary: b a) (auto simp: filenameStep_cases isPathBearing_def)

lemma snd_foldl_filenameStep:
  "snd (foldl filenameStep (b, a) h) =
     (if filter (\<lambda>i. isAnchorKind (kind i)) h = [] then a else anchorOf h)"
proof (induction h arbitrary: b a)
  case Nil
  then show ?case by simp
next
  case (Cons i h)
  show ?case
    by (cases "filter (\<lambda>i. isAnchorKind (kind i)) h")
      (auto simp: filenameStep_cases Cons.IH anchorOf_def isWrapperKind_def isAnchorKind_def)
qed

lemma foldl_appendSegment_nonempty:
  "b \<noteq> [] \<Longrightarrow> \<forall>s \<in> set segs. s \<noteq> [] \<Longrightarrow>
     foldl appendSegment b segs = joinWith ''/'' (b # segs)"
proof (induction segs arbitrary: b)
  case Nil
  then show ?case by simp
next
  case (Cons s segs)
  have "appendSegment b s \<noteq> []" using Cons.prems by (simp add: appendSegment_def)
  then have "foldl appendSegment (appendSegment b s) segs
               = joinWith ''/'' (appendSegment b s # segs)"
    using Cons by simp
  also have "\<dots> = joinWith ''/'' (b # s # segs)"
    using Cons.prems by (cases segs) (simp_all add: appendSegment_def)
  finally show ?case by simp
qed

lemma foldl_appendSegment_join:
  "\<forall>s \<in> set segs. s \<noteq> [] \<Longrightarrow> foldl appendSegment [] segs = joinWith ''/'' segs"
proof (cases segs)
  case Nil
  then show ?thesis by simp
next
  case (Cons s rest)
  assume "\<forall>s \<in> set segs. s \<noteq> []"
  then show ?thesis
    using Cons foldl_appendSegment_nonempty [of s rest] by (simp add: appendSegment_def)
qed

lemma natToString_nonempty: "natToString n \<noteq> []"
  by (subst natToString.simps) simp

lemma getAnchor_nonempty:
  "isAnchorKind (kind i) \<Longrightarrow> \<exists>a. getAnchorForApiItem i = Some a \<and> a \<noteq> []"
  by (auto simp: getAnchorForApiItem_def isAnchorKind_def Let_def)

lemma anchorOf_nonempty: "anchorOf h = Some a \<Longrightarrow> a \<noteq> []"
proof -
  assume a: "anchorOf h = Some a"
  then obtain x xs where f: "filter (\<lambda>i. isAnchorKind (kind i)) h = x # xs"
    by (auto simp: anchorOf_def split: list.splits)
  have "last (x # xs) \<in> set (filter (\<lambda>i. isAnchorKind (kind i)) h)"
    unfolding f by (rule last_in_set) simp
  then have "isAnchorKind (kind (last (x # xs)))" by simp
  from getAnchor_nonempty [OF this] a f show ?thesis by (auto simp: anchorOf_def)
qed

lemma segmentOf_nonempty: "displayName i \<noteq> [] \<Longrightarrow> segmentOf i \<noteq> []"
  by (simp add: segmentOf_def qualifiedNameOf_def)

lemma getFilenameForApiItem_eq_folderedPath:
  assumes "\<forall>i \<in> set h. isPathBearing i \<longrightarrow> displayName i \<noteq> []"
  shows "getFilenameForApiItem h = folderedPath h"
proof -
  let ?segs = "map segmentOf (filter isPathBearing h)"
  have ne: "\<forall>s \<in> set ?segs. s \<noteq> []"
    using assms by (auto simp: segmentOf_nonempty)
  have base: "fst (foldl filenameStep ([], None) h) = joinWith ''/'' ?segs"
    by (simp add: fst_foldl_filenameStep foldl_appendSegment_join [OF ne])
  have anch: "snd (foldl filenameStep ([], None) h) = anchorOf h"
    by (simp add: snd_foldl_filenameStep anchorOf_def)
  show ?thesis
  proof (cases "anchorOf h")
    case None
    then show ?thesis
      by (simp add: getFilenameForApiItem_def Let_def base anch folderedPath_def indexOr_def
          hashSuffix_def)
  next
    case (Some a)
    then have "a \<noteq> []" by (rule anchorOf_nonempty)
    then show ?thesis using Some
      by (simp add: getFilenameForApiItem_def Let_def base anch folderedPath_def indexOr_def
          hashSuffix_def)
  qed
qed





section \<open>Reverse edges\<close>

text \<open>
  C2. The class \<^verbatim>\<open>Dog\<close> extends the class \<^verbatim>\<open>Animal\<close> and implements the interface
  \<^verbatim>\<open>Walker\<close>. After both loops \<^verbatim>\<open>Dog\<close> is in the \<open>childClasses\<close> of \<^verbatim>\<open>Walker\<close>, as the
  kind of the child asks, but the edge to its base class has put it in the
  \<open>childInterfaces\<close> of \<^verbatim>\<open>Animal\<close>, whose \<open>childClasses\<close> stay empty.
\<close>

theorem generateClassHierarchy_extends_in_childInterfaces:
  "generateClassHierarchy sampleGetType zooTypeMap [zooModel] zooPackage =
     Some [(animalItem, \<lparr>parentClass = None, childClasses = [], parentInterfaces = [],
                          childInterfaces = [Item dogItem]\<rparr>),
           (dogItem, \<lparr>parentClass = Some (Item animalItem), childClasses = [],
                       parentInterfaces = [Item walkerItem], childInterfaces = []\<rparr>),
           (walkerItem, \<lparr>parentClass = None, childClasses = [Item dogItem],
                          parentInterfaces = [], childInterfaces = []\<rparr>)]"
  by code_simp

lemma zooMap_generated:
  "generateClassHierarchy sampleGetType zooTypeMap [zooModel] zooPackage = Some zooMap"
  by code_simp

lemma selfMap_generated:
  "generateClassHierarchy sampleGetType loopTypeMap [loopModel] loopPackage = Some selfMap"
  by code_simp


section \<open>The upward walks\<close>

















section \<open>Resolved members\<close>

lemma mergeNames_Nil_left [simp]: "mergeNames [] bs = bs"
  by (induction bs) auto

lemma mergeNames_Nil_right [simp]: "mergeNames as [] = as"
  by (induction as) auto






lemma mapGet_None_iff: "mapGet m k = None \<longleftrightarrow> k \<notin> fst ` set m"
  by (induction m) (auto split: if_splits)











lemma reachFrom_empty [simp]: "reachFrom im {} = {}"
  by (simp add: reachFrom_def)


lemma memberNames_empty [simp]: "memberNames {} = {}"
  by (simp add: memberNames_def)
















section \<open>Relative links\<close>

lemma splitSlash_nonempty [simp]: "splitSlash s \<noteq> []"
  by (induction s) (auto split: list.splits)

lemma splitSlash_no_slash: "CHR ''/'' \<notin> set s \<Longrightarrow> splitSlash s = [s]"
  by (induction s) auto

lemma splitSlash_append_slash:
  "splitSlash (a @ CHR ''/'' # b) = splitSlash a @ splitSlash b"
proof (induction a)
  case Nil
  show ?case by simp
next
  case (Cons c a)
  then show ?case by (cases "splitSlash a") (auto split: list.splits)
qed

lemma splitSlash_no_slash_append:
  "CHR ''/'' \<notin> set a \<Longrightarrow> splitSlash (a @ CHR ''/'' # b) = a # splitSlash b"
  by (induction a) auto

lemma splitSlash_joinWith:
  "segs \<noteq> [] \<Longrightarrow> \<forall>s \<in> set segs. CHR ''/'' \<notin> set s \<Longrightarrow>
     splitSlash (joinWith ''/'' segs) = segs"
proof (induction segs)
  case Nil
  then show ?case by simp
next
  case (Cons x segs)
  show ?case
  proof (cases segs)
    case Nil
    then show ?thesis using Cons.prems by (simp add: splitSlash_no_slash)
  next
    case (Cons y ys)
    then show ?thesis using Cons.IH Cons.prems by (simp add: splitSlash_no_slash_append)
  qed
qed

lemma pushSegment_plain: "plainSegment s \<Longrightarrow> pushSegment ab st s = st @ [s]"
  by (simp add: pushSegment_def plainSegment_def)

lemma foldl_pushSegment_plain:
  "\<forall>s \<in> set segs. plainSegment s \<Longrightarrow> foldl (pushSegment ab) st segs = st @ segs"
  by (induction segs arbitrary: st) (auto simp: pushSegment_plain)

lemma pushSegment_pop:
  "plainSegment s \<Longrightarrow> pushSegment ab (st @ [s]) ''..'' = st"
  by (simp add: pushSegment_def plainSegment_def)

lemma foldl_pushSegment_pops:
  "\<forall>s \<in> set ds. plainSegment s \<Longrightarrow>
     foldl (pushSegment ab) (st @ ds) (replicate (length ds) ''..'') = st"
proof (induction ds rule: rev_induct)
  case Nil
  then show ?case by simp
next
  case (snoc d ds)
  have "foldl (pushSegment ab) (st @ ds @ [d]) (replicate (length (ds @ [d])) ''..'')
          = foldl (pushSegment ab) (pushSegment ab ((st @ ds) @ [d]) ''..'') (replicate (length ds) ''..'')"
    by simp
  also have "\<dots> = foldl (pushSegment ab) (st @ ds) (replicate (length ds) ''..'')"
    using snoc.prems by (simp add: pushSegment_pop del: append_assoc)
  finally show ?case using snoc by simp
qed

lemma dropCommonPrefix_split:
  "\<exists>p. xs = p @ fst (dropCommonPrefix xs ys) \<and> ys = p @ snd (dropCommonPrefix xs ys)"
proof (induction xs ys rule: dropCommonPrefix.induct)
  case (1 x xs y ys)
  show ?case
  proof (cases "x = y")
    case True
    with 1 obtain p where "xs = p @ fst (dropCommonPrefix xs ys)" "ys = p @ snd (dropCommonPrefix xs ys)"
      by blast
    then have "x # xs = (x # p) @ fst (dropCommonPrefix (x # xs) (y # ys))
             \<and> y # ys = (x # p) @ snd (dropCommonPrefix (x # xs) (y # ys))"
      using True by simp
    then show ?thesis by blast
  next
    case False
    then show ?thesis by simp
  qed
qed (simp_all)

lemma dropCommonPrefix_append: "dropCommonPrefix (c @ xs) (c @ ys) = dropCommonPrefix xs ys"
  by (induction c) auto

lemma dirnameEnd_no_slash: "CHR ''/'' \<notin> set xs \<Longrightarrow> dirnameEnd m xs = None"
  by (induction xs arbitrary: m) auto

lemma dirnameEnd_after_segment:
  "CHR ''/'' \<notin> set xs \<Longrightarrow> xs \<noteq> [] \<or> \<not> m \<Longrightarrow>
     dirnameEnd m (xs @ CHR ''/'' # rest) = Some (Suc (length rest))"
  by (induction xs arbitrary: m) auto

lemma joinWith_snoc:
  "segs \<noteq> [] \<Longrightarrow> joinWith sep (segs @ [s]) = joinWith sep segs @ sep @ s"
  by (induction sep segs rule: joinWith.induct) auto

lemma joinWith_nonempty:
  "segs \<noteq> [] \<Longrightarrow> \<forall>s \<in> set segs. s \<noteq> [] \<Longrightarrow> joinWith sep segs \<noteq> []"
proof (cases segs)
  case Nil
  assume "segs \<noteq> []"
  with Nil show ?thesis by simp
next
  case (Cons x xs)
  assume "\<forall>s \<in> set segs. s \<noteq> []"
  with Cons show ?thesis by (cases xs) auto
qed

lemma joinWith_hd:
  "segs \<noteq> [] \<Longrightarrow> hd segs \<noteq> [] \<Longrightarrow> hd (joinWith sep segs) = hd (hd segs)"
  by (induction sep segs rule: joinWith.induct) auto

lemma path_dirname_joinWith:
  assumes "segs \<noteq> []" "\<forall>s \<in> set segs. plainSegment s"
  shows "path_dirname (joinWith ''/'' segs)
           = (if length segs = 1 then ''.'' else joinWith ''/'' (butlast segs))"
proof (cases "length segs = 1")
  case True
  then obtain s where s: "segs = [s]" by (cases segs) auto
  with assms obtain c cs where c: "s = c # cs" "CHR ''/'' \<notin> set (c # cs)"
    by (cases s) (auto simp: plainSegment_def)
  then have "dirnameEnd True (rev cs) = None" by (intro dirnameEnd_no_slash) simp
  then show ?thesis using s c by (auto simp: path_dirname_def)
next
  case False
  with assms(1) obtain front l where segs: "segs = front @ [l]" and front: "front \<noteq> []"
    by (cases segs rule: rev_cases) auto
  let ?pre = "joinWith ''/'' front"
  have l: "CHR ''/'' \<notin> set l" "l \<noteq> []" using assms(2) segs by (auto simp: plainSegment_def)
  have fr: "\<forall>s \<in> set front. s \<noteq> []" using assms(2) segs by (auto simp: plainSegment_def)
  have pre_ne: "?pre \<noteq> []" using front fr by (rule joinWith_nonempty)
  then obtain c cs where pre: "?pre = c # cs" by (cases ?pre) auto
  have "hd front \<noteq> []" using front fr by (cases front) auto
  then have "c = hd (hd front)" using joinWith_hd [OF front, of "''/''"] pre by simp
  moreover have "plainSegment (hd front)" using assms(2) segs front by (cases front) auto
  ultimately have c: "c \<noteq> CHR ''/''" by (cases "hd front") (auto simp: plainSegment_def)
  have p: "joinWith ''/'' segs = c # (cs @ CHR ''/'' # l)"
    using segs front pre by (simp add: joinWith_snoc)
  have "dirnameEnd True (rev (cs @ CHR ''/'' # l)) = dirnameEnd True (rev l @ CHR ''/'' # rev cs)"
    by simp
  also have "\<dots> = Some (Suc (length (rev cs)))"
    using l by (intro dirnameEnd_after_segment) auto
  finally have e: "dirnameEnd True (rev (cs @ CHR ''/'' # l)) = Some (Suc (length cs))" by simp
  have "path_dirname (joinWith ''/'' segs) = take (Suc (length cs)) (c # (cs @ CHR ''/'' # l))"
    unfolding p path_dirname_def using e c by simp
  also have "\<dots> = ?pre" using pre by simp
  finally show ?thesis using False segs by simp
qed

lemma of_char_toLowerChar:
  "of_char (toLowerChar c) = (if CHR ''A'' \<le> c \<and> c \<le> CHR ''Z'' then of_char c + 32 else (of_char c :: nat))"
proof (cases "CHR ''A'' \<le> c \<and> c \<le> CHR ''Z''")
  case True
  then have "(of_char c :: nat) \<le> 90" by (simp add: less_eq_char_def)
  then have "(of_char c + 32 :: nat) mod 256 = of_char c + 32" by simp
  then show ?thesis using True by (simp add: toLowerChar_def)
next
  case False
  then show ?thesis by (auto simp: toLowerChar_def)
qed

lemma toLowerChar_slash [simp]: "toLowerChar c = CHR ''/'' \<longleftrightarrow> c = CHR ''/''"
proof
  assume "toLowerChar c = CHR ''/''"
  then have "(of_char (toLowerChar c) :: nat) = 47" by simp
  then have "(of_char c :: nat) = 47"
    by (simp add: of_char_toLowerChar less_eq_char_def split: if_splits)
  then have "(of_char c :: nat) = of_char CHR ''/''" by simp
  then show "c = CHR ''/''" by (simp only: of_char_eq_iff)
next
  assume "c = CHR ''/''"
  then show "toLowerChar c = CHR ''/''" by (simp add: toLowerChar_def less_eq_char_def)
qed

lemma toLowerChar_dot [simp]: "toLowerChar c = CHR ''.'' \<longleftrightarrow> c = CHR ''.''"
proof
  assume "toLowerChar c = CHR ''.''"
  then have "(of_char (toLowerChar c) :: nat) = 46" by simp
  then have "(of_char c :: nat) = 46"
    by (simp add: of_char_toLowerChar less_eq_char_def split: if_splits)
  then have "(of_char c :: nat) = of_char CHR ''.''" by simp
  then show "c = CHR ''.''" by (simp only: of_char_eq_iff)
next
  assume "c = CHR ''.''"
  then show "toLowerChar c = CHR ''.''" by (simp add: toLowerChar_def less_eq_char_def)
qed

lemma toLowerChar_slash_sym [simp]: "CHR ''/'' = toLowerChar c \<longleftrightarrow> c = CHR ''/''"
  by (metis toLowerChar_slash)

lemma plainSegment_toLowerCase: "plainSegment s \<Longrightarrow> plainSegment (toLowerCase s)"
  unfolding plainSegment_def toLowerCase_def
  by (auto simp: map_eq_Cons_conv image_iff)

lemma toLowerCase_joinWith:
  "toLowerCase (joinWith ''/'' segs) = joinWith ''/'' (map toLowerCase segs)"
  by (induction "''/''" segs rule: joinWith.induct)
     (auto simp: toLowerCase_def toLowerChar_def less_eq_char_def)

lemma joinWith_concat:
  "\<forall>xs \<in> set xss. xs \<noteq> [] \<Longrightarrow>
     joinWith ''/'' (map (joinWith ''/'') xss) = joinWith ''/'' (concat xss)"
proof (induction xss)
  case Nil
  then show ?case by simp
next
  case (Cons xs xss)
  have app: "joinWith ''/'' (a @ b) = joinWith ''/'' a @ ''/'' @ joinWith ''/'' b"
    if "a \<noteq> []" "b \<noteq> []" for a b :: "string list"
    using that by (induction "''/''" a rule: joinWith.induct) (auto, (cases b; simp)+)
  have ne: "xs \<noteq> []" and rest: "\<forall>ys \<in> set xss. ys \<noteq> []" using Cons.prems by auto
  show ?case
  proof (cases xss)
    case Nil
    then show ?thesis by simp
  next
    case xss: (Cons ys yss)
    then have "concat xss \<noteq> []" using rest by auto
    then show ?thesis
      using xss Cons.IH [OF rest] ne by (simp add: app)
  qed
qed

lemma digitChar_not_slash: "d < 10 \<Longrightarrow> digitChar d \<noteq> CHR ''/''"
proof
  assume d: "d < 10" and "digitChar d = CHR ''/''"
  then have "(of_char (digitChar d) :: nat) = 47" by simp
  moreover have "(of_char (digitChar d) :: nat) = 48 + d"
    using d by (simp add: digitChar_def)
  ultimately show False by simp
qed

lemma natToString_no_slash: "CHR ''/'' \<notin> set (natToString n)"
proof (induction n rule: natToString.induct)
  case (1 n)
  show ?case
  proof (cases "n < 10")
    case True
    then show ?thesis
      using digitChar_not_slash [of n] by (subst natToString.simps) auto
  next
    case False
    then show ?thesis
      using 1 digitChar_not_slash [of "n mod 10"] by (subst natToString.simps) auto
  qed
qed

lemma plainSegment_suffix:
  "plainSegment s \<Longrightarrow> CHR ''/'' \<notin> set t \<Longrightarrow> t \<noteq> [] \<Longrightarrow> hd t \<noteq> CHR ''.'' \<Longrightarrow> plainSegment (s @ t)"
  by (cases s; cases t) (auto simp: plainSegment_def append_eq_Cons_conv)

lemma plainSegment_qualifiedNameOf:
  "plainSegment (displayName i) \<Longrightarrow> plainSegment (qualifiedNameOf i)"
  unfolding qualifiedNameOf_def
  by (auto intro!: plainSegment_suffix simp: natToString_no_slash)

lemma plainSegment_folder: "folderOf k = Some folder \<Longrightarrow> plainSegment folder"
  by (cases k) (auto simp: folderOf_def plainSegment_def)

lemma itemSegments_plain:
  "plainSegment (displayName i) \<Longrightarrow> \<forall>s \<in> set (itemSegments i). plainSegment s"
  by (auto simp: itemSegments_def plainSegment_qualifiedNameOf plainSegment_folder
      split: option.splits)

lemma itemSegments_nonempty [simp]: "itemSegments i \<noteq> []"
  by (simp add: itemSegments_def)

lemma segmentOf_itemSegments: "segmentOf i = joinWith ''/'' (itemSegments i)"
  by (simp add: segmentOf_def itemSegments_def folderPrefix_def split: option.splits)

lemma getAnchor_no_slash:
  "getAnchorForApiItem i = Some a \<Longrightarrow> CHR ''/'' \<notin> set (displayName i) \<Longrightarrow> CHR ''/'' \<notin> set a"
  by (auto simp: getAnchorForApiItem_def Let_def natToString_no_slash split: if_splits)

lemma anchorOf_no_slash:
  assumes "plainNames h" "anchorOf h = Some a"
  shows "CHR ''/'' \<notin> set a"
proof -
  from assms(2) obtain x xs where f: "filter (\<lambda>i. isAnchorKind (kind i)) h = x # xs"
    and a: "getAnchorForApiItem (last (x # xs)) = Some a"
    by (auto simp: anchorOf_def split: list.splits)
  have "last (x # xs) \<in> set (filter (\<lambda>i. isAnchorKind (kind i)) h)"
    unfolding f by (rule last_in_set) simp
  then have "last (x # xs) \<in> set h" "isAnchorKind (kind (last (x # xs)))" by auto
  then have "plainSegment (displayName (last (x # xs)))"
    using assms(1) by (auto simp: plainNames_def isAnchorKind_def isWrapperKind_def)
  then show ?thesis using getAnchor_no_slash [OF a] by (simp add: plainSegment_def)
qed

lemma hashSuffix_no_slash:
  "plainNames h \<Longrightarrow> CHR ''/'' \<notin> set (hashSuffix (anchorOf h))"
  by (cases "anchorOf h") (auto simp: hashSuffix_def dest: anchorOf_no_slash)

lemma joinWith_last_append:
  "segs \<noteq> [] \<Longrightarrow> joinWith sep segs @ x = joinWith sep (butlast segs @ [last segs @ x])"
  by (induction sep segs rule: joinWith.induct) auto

lemma plainSegment_md:
  "CHR ''/'' \<notin> set s \<Longrightarrow> CHR ''/'' \<notin> set t \<Longrightarrow> plainSegment (s @ ''.md'' @ t)"
proof -
  assume a: "CHR ''/'' \<notin> set s" "CHR ''/'' \<notin> set t"
  have len: "length (s @ ''.md'' @ t) \<ge> 3" by simp
  have "s @ ''.md'' @ t \<noteq> []" by simp
  moreover have "s @ ''.md'' @ t \<noteq> ''.''"
  proof
    assume "s @ ''.md'' @ t = ''.''"
    then have "length (s @ ''.md'' @ t) = 1" by simp
    with len show False by simp
  qed
  moreover have "s @ ''.md'' @ t \<noteq> ''..''"
  proof
    assume "s @ ''.md'' @ t = ''..''"
    then have "length (s @ ''.md'' @ t) = 2" by simp
    with len show False by simp
  qed
  ultimately show ?thesis using a by (simp add: plainSegment_def)
qed

lemma pathSegments_plain:
  assumes "plainNames h"
  shows "pathSegments h \<noteq> []" and "\<forall>s \<in> set (pathSegments h). plainSegment s"
    and "getFilenameForApiItem h = joinWith ''/'' (pathSegments h)"
proof -
  let ?items = "filter isPathBearing h"
  let ?segs = "map toLowerCase (concat (map itemSegments ?items))"
  let ?suffix = "''.md'' @ hashSuffix (anchorOf h)"
  have names: "\<forall>i \<in> set ?items. plainSegment (displayName i)"
    using assms by (auto simp: plainNames_def isPathBearing_def)
  then have plain: "\<forall>s \<in> set ?segs. plainSegment s"
    using itemSegments_plain by (auto intro: plainSegment_toLowerCase)
  have hs: "CHR ''/'' \<notin> set (hashSuffix (anchorOf h))"
    using assms by (rule hashSuffix_no_slash)
  show "pathSegments h \<noteq> []" by (simp add: pathSegments_def Let_def)
  show "\<forall>s \<in> set (pathSegments h). plainSegment s"
  proof (cases "?segs = []")
    case True
    then show ?thesis
      using plainSegment_md [of "''index''", OF _ hs] by (simp add: pathSegments_def Let_def)
  next
    case False
    then have "plainSegment (last ?segs)" using plain last_in_set by blast
    then have "plainSegment (last ?segs @ ?suffix)"
      using plainSegment_md [OF _ hs, of "last ?segs"] by (simp add: plainSegment_def)
    moreover have "\<forall>s \<in> set (butlast ?segs). plainSegment s"
      using plain by (meson in_set_butlastD)
    ultimately show ?thesis using False by (simp add: pathSegments_def Let_def)
  qed
  have "\<forall>i \<in> set h. isPathBearing i \<longrightarrow> displayName i \<noteq> []"
    using assms by (auto simp: plainNames_def isPathBearing_def plainSegment_def)
  then have "getFilenameForApiItem h = folderedPath h"
    by (rule getFilenameForApiItem_eq_folderedPath)
  moreover have "toLowerCase (joinWith ''/'' (map segmentOf ?items)) = joinWith ''/'' ?segs"
  proof -
    have "map segmentOf ?items = map (joinWith ''/'') (map itemSegments ?items)"
      by (simp add: segmentOf_itemSegments)
    moreover have "joinWith ''/'' (map (joinWith ''/'') (map itemSegments ?items))
                     = joinWith ''/'' (concat (map itemSegments ?items))"
      by (rule joinWith_concat) simp
    ultimately have "joinWith ''/'' (map segmentOf ?items)
                     = joinWith ''/'' (concat (map itemSegments ?items))"
      by (simp only:)
    then show ?thesis by (simp add: toLowerCase_joinWith)
  qed
  moreover have "indexOr (joinWith ''/'' ?segs) @ ?suffix = joinWith ''/'' (pathSegments h)"
  proof (cases "?segs = []")
    case True
    then show ?thesis by (simp add: pathSegments_def Let_def indexOr_def)
  next
    case False
    have "\<forall>s \<in> set ?segs. s \<noteq> []" using plain by (auto simp: plainSegment_def)
    then have "joinWith ''/'' ?segs \<noteq> []" using False joinWith_nonempty by blast
    then show ?thesis
      using False joinWith_last_append [OF False, of "''/''" ?suffix]
      by (simp add: pathSegments_def Let_def indexOr_def)
  qed
  ultimately show "getFilenameForApiItem h = joinWith ''/'' (pathSegments h)"
    by (simp add: folderedPath_def)
qed

lemma pushSegment_dot [simp]: "pushSegment ab st ''.'' = st"
  by (simp add: pushSegment_def)

lemma pushSegment_empty [simp]: "pushSegment ab st [] = st"
  by (simp add: pushSegment_def)

lemma plainSegment_not_absolute:
  "segs \<noteq> [] \<Longrightarrow> \<forall>s \<in> set segs. plainSegment s \<Longrightarrow> \<not> isAbsolute (joinWith ''/'' segs)"
proof -
  assume a: "segs \<noteq> []" "\<forall>s \<in> set segs. plainSegment s"
  then obtain x xs where segs: "segs = x # xs" by (cases segs) auto
  with a obtain c cs where x: "x = c # cs" "c \<noteq> CHR ''/''"
    by (cases x) (auto simp: plainSegment_def)
  show ?thesis using segs x by (cases xs) (auto simp: isAbsolute_def)
qed

lemma dirname_segments:
  assumes "os \<noteq> []" "\<forall>s \<in> set os. plainSegment s"
  shows "foldl (pushSegment ab) st (splitSlash (path_dirname (joinWith ''/'' os))) = st @ butlast os"
    and "\<not> isAbsolute (path_dirname (joinWith ''/'' os))"
proof -
  have d: "path_dirname (joinWith ''/'' os)
           = (if length os = 1 then ''.'' else joinWith ''/'' (butlast os))"
    using assms by (rule path_dirname_joinWith)
  show "foldl (pushSegment ab) st (splitSlash (path_dirname (joinWith ''/'' os))) = st @ butlast os"
  proof (cases "length os = 1")
    case True
    then obtain s where "os = [s]" by (cases os) auto
    then show ?thesis using d by simp
  next
    case False
    then have ne: "butlast os \<noteq> []" using assms(1) by (cases os) auto
    have pl: "\<forall>s \<in> set (butlast os). plainSegment s" using assms(2) by (meson in_set_butlastD)
    then have "splitSlash (joinWith ''/'' (butlast os)) = butlast os"
      using ne by (intro splitSlash_joinWith) (auto simp: plainSegment_def)
    then show ?thesis using d False pl by (simp add: foldl_pushSegment_plain)
  qed
  show "\<not> isAbsolute (path_dirname (joinWith ''/'' os))"
  proof (cases "length os = 1")
    case True
    then show ?thesis using d by (simp add: isAbsolute_def)
  next
    case False
    then have ne: "butlast os \<noteq> []" using assms(1) by (cases os) auto
    have pl: "\<forall>s \<in> set (butlast os). plainSegment s" using assms(2) by (meson in_set_butlastD)
    show ?thesis using d False plainSegment_not_absolute [OF ne pl] by simp
  qed
qed

lemma resolveSegments_relative:
  "\<not> isAbsolute p \<Longrightarrow>
     resolveSegments cwd p
       = foldl (pushSegment False) (normalizeSegments False (splitSlash cwd)) (splitSlash p)"
  by (simp add: resolveSegments_def normalizeSegments_def splitSlash_append_slash)

lemma path_relative_segments:
  assumes "os \<noteq> []" "\<forall>s \<in> set os. plainSegment s" "ts \<noteq> []" "\<forall>s \<in> set ts. plainSegment s"
  shows "path_relative cwd (path_dirname (joinWith ''/'' os)) (joinWith ''/'' ts)
           = joinWith ''/'' (replicate (length (fst (dropCommonPrefix (butlast os) ts))) ''..''
                              @ snd (dropCommonPrefix (butlast os) ts))"
proof -
  let ?dir = "path_dirname (joinWith ''/'' os)"
  let ?to = "joinWith ''/'' ts"
  let ?C = "normalizeSegments False (splitSlash cwd)"
  have f: "resolveSegments cwd ?dir = ?C @ butlast os"
    using dirname_segments [OF assms(1,2)] by (simp add: resolveSegments_relative)
  have "splitSlash ?to = ts"
    using assms(3,4) by (intro splitSlash_joinWith) (auto simp: plainSegment_def)
  then have t: "resolveSegments cwd ?to = ?C @ ts"
    using plainSegment_not_absolute [OF assms(3,4)] assms(4)
    by (simp add: resolveSegments_relative foldl_pushSegment_plain)
  show ?thesis
  proof (cases "?dir = ?to \<or> butlast os = ts")
    case True
    then have "butlast os = ts" using f t by auto
    then have "dropCommonPrefix (butlast os) ts = ([], [])"
      using dropCommonPrefix_append [of ts "[]" "[]"] by simp
    then show ?thesis using True f t by (auto simp: path_relative_def)
  next
    case False
    then show ?thesis
      using f t by (simp add: path_relative_def Let_def dropCommonPrefix_append)
  qed
qed

lemma relative_link_resolves:
  assumes "os \<noteq> []" "\<forall>s \<in> set os. plainSegment s" "ts \<noteq> []" "\<forall>s \<in> set ts. plainSegment s"
    and "rel = path_relative cwd (path_dirname (joinWith ''/'' os)) (joinWith ''/'' ts)"
  shows "normalizeSegments True (splitSlash (path_dirname (joinWith ''/'' os)) @ splitSlash rel) = ts"
    and "normalizeSegments True (splitSlash (path_dirname (joinWith ''/'' os)) @ splitSlash (''./'' @ rel)) = ts"
proof -
  define ds where "ds = butlast os"
  define d' where "d' = fst (dropCommonPrefix ds ts)"
  define t' where "t' = snd (dropCommonPrefix ds ts)"
  define ups where "ups = replicate (length d') ''..''"
  obtain p where p: "ds = p @ d'" "ts = p @ t'"
    using dropCommonPrefix_split [of ds ts] unfolding d'_def t'_def by blast
  have "set d' \<subseteq> set ds" using p(1) by simp
  then have "set d' \<subseteq> set os" unfolding ds_def using in_set_butlastD [of _ os] by blast
  then have plD: "\<forall>s \<in> set d'. plainSegment s" using assms(2) by blast
  have "set t' \<subseteq> set ts" using p(2) by simp
  then have plT: "\<forall>s \<in> set t'. plainSegment s" using assms(4) by blast
  have rel: "rel = joinWith ''/'' (ups @ t')"
    using assms(5) path_relative_segments [OF assms(1-4), of cwd]
    unfolding ups_def d'_def t'_def ds_def by simp
  have go: "foldl (pushSegment True) ds (splitSlash rel) = ts"
  proof (cases "ups @ t' = []")
    case True
    then have "rel = []" "d' = []" "t' = []" using rel by (auto simp: ups_def)
    then show ?thesis using p by simp
  next
    case False
    have "\<forall>s \<in> set t'. CHR ''/'' \<notin> set s"
      using plT by (simp add: plainSegment_def)
    moreover have "\<forall>s \<in> set ups. CHR ''/'' \<notin> set s"
      by (simp add: ups_def)
    ultimately have "\<forall>s \<in> set (ups @ t'). CHR ''/'' \<notin> set s"
      by auto
    then have "splitSlash rel = ups @ t'"
      unfolding rel using False by (intro splitSlash_joinWith) auto
    moreover have "foldl (pushSegment True) (p @ d') ups = p"
      unfolding ups_def using plD by (rule foldl_pushSegment_pops)
    moreover have "foldl (pushSegment True) p t' = p @ t'"
      using plT by (rule foldl_pushSegment_plain)
    ultimately show ?thesis
      by (simp add: p)
  qed
  have base: "foldl (pushSegment True) [] (splitSlash (path_dirname (joinWith ''/'' os))) = ds"
    using dirname_segments(1) [OF assms(1,2), of True "[]"] by (simp add: ds_def)
  show "normalizeSegments True (splitSlash (path_dirname (joinWith ''/'' os)) @ splitSlash rel) = ts"
    using base go by (simp add: normalizeSegments_def)
  have "splitSlash (''./'' @ rel) = ''.'' # splitSlash rel"
    using splitSlash_no_slash_append [of "''.''" rel] by simp
  then show "normalizeSegments True (splitSlash (path_dirname (joinWith ''/'' os)) @ splitSlash (''./'' @ rel)) = ts"
    using base go by (simp add: normalizeSegments_def)
qed

lemma getLinkFilenameForApiItem_roundtrip_aux:
  assumes "plainNames origin" "plainNames target"
  shows "(startsWith ''./'' (getLinkFilenameForApiItem cwd (getFilenameForApiItem origin) target)
          \<or> startsWith ''../'' (getLinkFilenameForApiItem cwd (getFilenameForApiItem origin) target))
         \<and> resolveLink (getFilenameForApiItem origin)
              (getLinkFilenameForApiItem cwd (getFilenameForApiItem origin) target)
             = getFilenameForApiItem target"
proof -
  let ?O = "pathSegments origin" and ?T = "pathSegments target"
  let ?rel = "path_relative cwd (path_dirname (joinWith ''/'' ?O)) (joinWith ''/'' ?T)"
  let ?link = "getLinkFilenameForApiItem cwd (getFilenameForApiItem origin) target"
  note o = pathSegments_plain [OF assms(1)]
  note t = pathSegments_plain [OF assms(2)]
  have link: "?link = (if \<not> startsWith ''./'' ?rel \<and> \<not> startsWith ''../'' ?rel
                        then ''./'' @ ?rel else ?rel)"
    by (simp add: getLinkFilenameForApiItem_def Let_def o(3) t(3))
  have starts: "startsWith ''./'' ?link \<or> startsWith ''../'' ?link"
    unfolding link by (auto simp: startsWith_def)
  note res = relative_link_resolves [OF o(1,2) t(1,2) refl, of cwd]
  have "normalizeSegments True (splitSlash (path_dirname (joinWith ''/'' ?O)) @ splitSlash ?link) = ?T"
  proof (cases "\<not> startsWith ''./'' ?rel \<and> \<not> startsWith ''../'' ?rel")
    case True
    then have "?link = ''./'' @ ?rel" using link by presburger
    then show ?thesis by (simp only: res(2))
  next
    case False
    then have "?link = ?rel" using link by presburger
    then show ?thesis by (simp only: res(1))
  qed
  then have "resolveLink (getFilenameForApiItem origin) ?link = getFilenameForApiItem target"
    by (simp add: resolveLink_def o(3) t(3))
  with starts show ?thesis by simp
qed

text \<open>
  C5. From the page of \<open>origin\<close>, the link to \<open>target\<close> starts with \<^verbatim>\<open>./\<close> or \<^verbatim>\<open>../\<close>, and,
  resolved against the directory of the path of the page, it leads to the path of
  \<open>target\<close>. The names of the declarations are taken to be plain segments.
\<close>

theorem getLinkFilenameForApiItem_roundtrip:
  "plainNames origin \<Longrightarrow> plainNames target \<Longrightarrow>
     (startsWith ''./'' (getLinkFilenameForApiItem cwd (getFilenameForApiItem origin) target)
      \<or> startsWith ''../'' (getLinkFilenameForApiItem cwd (getFilenameForApiItem origin) target))
     \<and> resolveLink (getFilenameForApiItem origin)
          (getLinkFilenameForApiItem cwd (getFilenameForApiItem origin) target)
         = getFilenameForApiItem target"
  by (rule getLinkFilenameForApiItem_roundtrip_aux)

theorem getLinkFilenameForApiItem_roundtrip_witness:
  "plainNames (zooHierarchy dogItem) \<and> plainNames (zooHierarchy walkerItem @ [walkerSpeak])
   \<and> getFilenameForApiItem (zooHierarchy dogItem) = ''classes/dog.md''
   \<and> getLinkFilenameForApiItem ''/home/docs'' ''classes/dog.md'' (zooHierarchy walkerItem @ [walkerSpeak])
       = ''../interfaces/walker.md#speak-method''
   \<and> resolveLink ''classes/dog.md'' ''../interfaces/walker.md#speak-method''
       = getFilenameForApiItem (zooHierarchy walkerItem @ [walkerSpeak])"
proof -
  have a: "plainNames (zooHierarchy dogItem)"
    "plainNames (zooHierarchy walkerItem @ [walkerSpeak])"
    by code_simp+
  have b: "getFilenameForApiItem (zooHierarchy dogItem) = ''classes/dog.md''"
    by code_simp
  have c: "getLinkFilenameForApiItem ''/home/docs'' ''classes/dog.md''
             (zooHierarchy walkerItem @ [walkerSpeak]) = ''../interfaces/walker.md#speak-method''"
    by code_simp
  from getLinkFilenameForApiItem_roundtrip [OF a, of "''/home/docs''"] a b c
  show ?thesis by simp
qed

section \<open>The emitter\<close>

lemma writeHeaderCells_slots:
  "length cells \<le> n \<Longrightarrow> writeHeaderCells n cells ctx = writeSlots (padCells n cells) ctx"
proof (induction n arbitrary: cells ctx)
  case 0
  then show ?case by (simp add: padCells_def)
next
  case (Suc n)
  show ?case
  proof (cases cells)
    case Nil
    have "writeHeaderCells n [] (writeText '' |'' (writeText '' '' ctx))
            = writeSlots (padCells n []) (writeText '' |'' (writeText '' '' ctx))"
      by (rule Suc.IH) simp
    then show ?thesis using Nil by (simp add: padCells_def)
  next
    case (Cons cell rest)
    then have "length rest \<le> n" using Suc.prems by simp
    then have "writeHeaderCells n rest c = writeSlots (padCells n rest) c" for c
      by (rule Suc.IH)
    then show ?thesis using Cons by (simp add: padCells_def split: sum.splits)
  qed
qed

lemma writeRowCells_slots: "writeRowCells cells ctx = writeSlots (map Some cells) ctx"
  by (induction cells arbitrary: ctx) (auto split: sum.splits)

lemma writeRows_slots: "writeRows rows ctx = writeSlotRows (map Some) rows ctx"
  by (induction rows arbitrary: ctx) (auto simp: writeRowCells_slots split: sum.splits)

lemma foldl_columns:
  "foldl (\<lambda>count row. if length row > count then length row else count) c rows
     = Max (set (c # map length rows))"
proof (induction rows arbitrary: c)
  case Nil
  then show ?case by simp
next
  case (Cons row rows)
  have "(if length row > c then length row else c) = max c (length row)" by (simp add: max_def)
  then have "foldl (\<lambda>count row. if length row > count then length row else count) c (row # rows)
               = Max (set (max c (length row) # map length rows))"
    using Cons.IH [of "max c (length row)"] by simp
  also have "\<dots> = Max (set (c # map length (row # rows)))"
  proof (cases "rows = []")
    case True
    then show ?thesis by simp
  next
    case False
    then have ne: "length ` set rows \<noteq> {}" by simp
    have "Max (insert (max c (length row)) (length ` set rows))
            = max (max c (length row)) (Max (length ` set rows))"
      using ne by simp
    moreover have "Max (insert c (insert (length row) (length ` set rows)))
            = max c (max (length row) (Max (length ` set rows)))"
      using ne by simp
    ultimately show ?thesis by (simp add: max.assoc)
  qed
  finally show ?case .
qed

lemma columnCount_maxColumns: "columnCount header rows = maxColumns header rows"
  by (simp add: columnCount_def maxColumns_def foldl_columns)

lemma length_le_maxColumns: "length header \<le> maxColumns header rows"
  by (simp add: maxColumns_def)

lemma row_le_maxColumns: "row \<in> set rows \<Longrightarrow> length row \<le> maxColumns header rows"
  by (simp add: maxColumns_def Max_ge_iff)

lemma length_padCells: "length cells \<le> n \<Longrightarrow> length (padCells n cells) = n"
  by (simp add: padCells_def)

text \<open>
  C9 (amended). The column count of a table is the greatest number of cells of its header
  and of its rows. The header row has exactly that many columns, a column without a cell
  of the header being empty, and so has the divider; a data row has one column for each
  of its own cells and is not filled up.
\<close>

theorem writeNode_Table_columns:
  "writeNode (Table header rows) hasNextSibling ctx = renderTable (map Some) header rows ctx
   \<and> columnCount header rows = maxColumns header rows
   \<and> length (padCells (maxColumns header rows) header) = maxColumns header rows"
  by (simp add: renderTable_def columnCount_maxColumns writeRows_slots
      writeHeaderCells_slots length_le_maxColumns length_padCells cong: sum.case_cong)

text \<open>
  The row of one cell of the sample table is written with one column, where the header and
  the divider have three; filled up to three columns it would read otherwise.
\<close>

theorem writeNode_Table_short_row:
  "emit (Table sampleHeader sampleRows)
     = Inr ''\<newline>|  a | b |  |\<newline>|  --- | --- | --- |\<newline>|  x |\<newline>|  p | q | r |\<newline>\<newline>''
   \<and> outputOf (renderTable (padCells (maxColumns sampleHeader sampleRows)) sampleHeader sampleRows
                 emptyContext)
       = Inr ''\<newline>|  a | b |  |\<newline>|  --- | --- | --- |\<newline>|  x |  |  |\<newline>|  p | q | r |\<newline>\<newline>''"
  by code_simp


section \<open>The inheritance note\<close>

lemma inheritanceNoteText_Implements_iff:
  "inheritanceNoteText apiItem parent = ''Implements '' \<longleftrightarrow>
     apiItem \<noteq> parent
     \<and> ((kind apiItem = Method \<and> kind parent = PropertySignature)
        \<or> (kind apiItem = MethodSignature \<and> kind parent = Property))"
  by (auto simp: inheritanceNoteText_def)


end
